theory Spec2Isabelle
  imports Complex_Main "HOL-Library.Word"
begin

section \<open>Data model\<close>

text \<open>
  The conflict graph of \<^verbatim>\<open>LPColoring\<close> is a Boost graph with vertices
  \<open>0 ..< numVertices\<close> and a sequence of undirected edges, each with an integer weight.
  An edge is the triple (source, target, weight).  \<^verbatim>\<open>adjacent_vertices(v, g)\<close> of an
  undirected adjacency list walks the edges incident to \<open>v\<close> in insertion order and
  yields the opposite endpoint of each.
\<close>

type_synonym vertex = nat
type_synonym edge = "vertex \<times> vertex \<times> int"

record graph =
  numVertices :: nat
  edges :: "edge list"

definition source :: "edge \<Rightarrow> vertex" where
  "source e = fst e"

definition target :: "edge \<Rightarrow> vertex" where
  "target e = fst (snd e)"

definition edge_weight :: "edge \<Rightarrow> int" where
  "edge_weight e = snd (snd e)"

definition adjacent_vertices :: "vertex \<Rightarrow> graph \<Rightarrow> vertex list" where
  "adjacent_vertices v g =
     concat (map (\<lambda>e. (if source e = v then [target e] else []) @
                       (if target e = v then [source e] else [])) (edges g))"

text \<open>The colour-count mode of the base class \<^verbatim>\<open>Coloring\<close>.\<close>

datatype ColorNumType = THREE | FOUR

text \<open>
  Failures of the program: an \<^verbatim>\<open>assert_msg\<close> that does not hold, and an index outside
  the vector it is applied to.
\<close>

datatype error = AssertionFailed | OutOfRange

subsection \<open>The linear program handed to the LP engine\<close>

text \<open>
  A \<^verbatim>\<open>GRBVar\<close> is its index in the model; \<^verbatim>\<open>vColorBits[k]\<close> is variable \<open>k\<close>.
  A \<^verbatim>\<open>GRBLinExpr\<close> is a constant and a sequence of (coefficient, variable) terms;
  \<^verbatim>\<open>+=\<close> appends terms.  A constraint is an expression, a sense
  (\<^verbatim>\<open>'>'\<close>, \<^verbatim>\<open>'<'\<close> or \<^verbatim>\<open>'='\<close>) and a right-hand side.  The names \<^verbatim>\<open>R<k>\<close> are
  labels only; the counter \<^verbatim>\<open>m_constrs_num\<close> that numbers them is kept.
  Values of type \<^verbatim>\<open>double\<close> are real numbers.
\<close>

type_synonym lin_term = "real \<times> nat"

record GRBLinExpr =
  lconst :: real
  lterms :: "lin_term list"

record GRBConstr =
  lhs :: GRBLinExpr
  Sense :: char
  RHS :: real

record GRBModel =
  var_lb :: "real list"
  var_ub :: "real list"
  constrs :: "GRBConstr list"

definition eval_expr :: "real list \<Rightarrow> GRBLinExpr \<Rightarrow> real" where
  "eval_expr X e = lconst e + sum_list (map (\<lambda>(c, i). c * X ! i) (lterms e))"

definition satisfied :: "real list \<Rightarrow> GRBConstr \<Rightarrow> bool" where
  "satisfied X c =
     (if Sense c = CHR ''>'' then RHS c \<le> eval_expr X (lhs c)
      else if Sense c = CHR ''<'' then eval_expr X (lhs c) \<le> RHS c
      else eval_expr X (lhs c) = RHS c)"

definition getCoeff :: "GRBConstr \<Rightarrow> nat \<Rightarrow> real" where
  "getCoeff c v = sum_list (map fst (filter (\<lambda>t. snd t = v) (lterms (lhs c))))"

section \<open>\<^verbatim>\<open>set_optimize_model\<close>\<close>

text \<open>
  The four cover constraints of one edge, in the order of the source; \<open>2 * s\<close> is
  \<^verbatim>\<open>s<<1\<close>.  The expression \<^verbatim>\<open>1 - a + b + 1 - c + d\<close> has constant 2.
\<close>

definition cover_constraints :: "vertex \<Rightarrow> vertex \<Rightarrow> GRBConstr list" where
  "cover_constraints s t =
     (let bitIdxS = 2 * s; bitIdxT = 2 * t in
      [ \<lparr>lhs = \<lparr>lconst = 0, lterms = [(1, bitIdxS), (1, bitIdxS + 1), (1, bitIdxT), (1, bitIdxT + 1)]\<rparr>,
         Sense = CHR ''>'', RHS = 1\<rparr>,
        \<lparr>lhs = \<lparr>lconst = 2, lterms = [(- 1, bitIdxS), (1, bitIdxS + 1), (- 1, bitIdxT), (1, bitIdxT + 1)]\<rparr>,
         Sense = CHR ''>'', RHS = 1\<rparr>,
        \<lparr>lhs = \<lparr>lconst = 2, lterms = [(1, bitIdxS), (- 1, bitIdxS + 1), (1, bitIdxT), (- 1, bitIdxT + 1)]\<rparr>,
         Sense = CHR ''>'', RHS = 1\<rparr>,
        \<lparr>lhs = \<lparr>lconst = 4, lterms = [(- 1, bitIdxS), (- 1, bitIdxS + 1), (- 1, bitIdxT), (- 1, bitIdxT + 1)]\<rparr>,
         Sense = CHR ''>'', RHS = 1\<rparr> ])"

text \<open>The loop over the edges: the model's constraints and \<^verbatim>\<open>m_constrs_num\<close> are threaded.\<close>

fun add_edge_constraints :: "edge list \<Rightarrow> GRBConstr list \<Rightarrow> nat \<Rightarrow> error + GRBConstr list \<times> nat" where
  "add_edge_constraints [] cs k = Inr (cs, k)"
| "add_edge_constraints (e # es) cs k =
     (if edge_weight e > 0
      then add_edge_constraints es (cs @ cover_constraints (source e) (target e)) (k + 4)
      else Inl AssertionFailed)"

text \<open>The extra constraint \<open>b1 + b2 \<le> 1\<close> of vertex \<open>k div 2\<close> when three colours are asked for.\<close>

definition three_constraint :: "nat \<Rightarrow> GRBConstr" where
  "three_constraint k =
     \<lparr>lhs = \<lparr>lconst = 0, lterms = [(1, k), (1, k + 1)]\<rparr>, Sense = CHR ''<'', RHS = 1\<rparr>"

definition three_constraints :: "nat \<Rightarrow> GRBConstr list" where
  "three_constraints numColorBits = map (\<lambda>i. three_constraint (2 * i)) [0 ..< (numColorBits + 1) div 2]"

text \<open>
  \<^verbatim>\<open>set_optimize_model\<close>: \<open>2 * numVertices\<close> colour bits followed by one variable per
  edge, all in \<open>[0, 1]\<close>; the objective is cleared; then the constraints.
  The result is the model, the objective and the new \<^verbatim>\<open>m_constrs_num\<close>.
\<close>

definition set_optimize_model ::
  "ColorNumType \<Rightarrow> graph \<Rightarrow> nat \<Rightarrow> error + GRBModel \<times> GRBLinExpr \<times> nat" where
  "set_optimize_model color_num g m_constrs_num =
     (let numColorBits = 2 * numVertices g;
          numEdges = length (edges g)
      in case add_edge_constraints (edges g) [] m_constrs_num of
           Inl e \<Rightarrow> Inl e
         | Inr (cs, k) \<Rightarrow>
             (let cs3 = (if color_num = THREE then three_constraints numColorBits else [])
              in Inr (\<lparr>var_lb = replicate (numColorBits + numEdges) 0,
                        var_ub = replicate (numColorBits + numEdges) 1,
                        constrs = cs @ cs3\<rparr>,
                      \<lparr>lconst = 0, lterms = []\<rparr>,
                      k + length cs3)))"

section \<open>\<^verbatim>\<open>apply_solution\<close>\<close>

text \<open>C's \<^verbatim>\<open>round\<close>: to the nearest integer, halves away from zero.\<close>

definition c_round :: "real \<Rightarrow> int" where
  "c_round x = (if 0 \<le> x then \<lfloor>x + 1 / 2\<rfloor> else \<lceil>x - 1 / 2\<rceil>)"

text \<open>
  \<^verbatim>\<open>apply_solution\<close> overwrites every entry of \<^verbatim>\<open>m_vColor\<close> with \<^verbatim>\<open>(b1<<1)+b2\<close>,
  where \<open>b1\<close>, \<open>b2\<close> are the rounded values of the vertex's two variables.
\<close>

definition apply_solution :: "real list \<Rightarrow> int list \<Rightarrow> int list" where
  "apply_solution X m_vColor =
     map (\<lambda>i. let b1 = c_round (X ! (2 * i)); b2 = c_round (X ! (2 * i + 1))
               in 2 * b1 + b2) [0 ..< length m_vColor]"

text \<open>
  An LP solution satisfies the model: it has one value per variable, each value is within
  the variable's bounds, and every constraint holds.
\<close>

definition lp_feasible :: "GRBModel \<Rightarrow> real list \<Rightarrow> bool" where
  "lp_feasible m X \<longleftrightarrow>
     length X = length (var_lb m) \<and>
     list_all (\<lambda>i. var_lb m ! i \<le> X ! i \<and> X ! i \<le> var_ub m ! i) [0 ..< length X] \<and>
     list_all (satisfied X) (constrs m)"

section \<open>Objective perturbation\<close>

definition is_integer :: "real \<Rightarrow> bool" where
  "is_integer value \<longleftrightarrow> value = of_int \<lfloor>value\<rfloor>"

text \<open>
  \<^verbatim>\<open>adjust_variable_pair_in_objective\<close>: \<open>X\<close> holds the current values of
  \<^verbatim>\<open>vColorBits\<close> (an even number of them: two per vertex), \<open>k\<close> is the loop index.
  The difference \<^verbatim>\<open>vColorBits[k+1]-vColorBits[k]\<close> is the expression with the terms
  \<open>(1, k+1)\<close> and \<open>(-1, k)\<close>.
\<close>

function adjust_variable_pair_loop :: "real list \<Rightarrow> nat \<Rightarrow> GRBLinExpr \<Rightarrow> GRBLinExpr" where
  "adjust_variable_pair_loop X k obj =
     (if k < length X then
        (let value1 = X ! k;
             value2 = X ! (k + 1);
             obj' = (if \<not> is_integer value1 \<or> \<not> is_integer value2 then
                       (if value1 > value2 then obj\<lparr>lterms := lterms obj @ [(1, k + 1), (- 1, k)]\<rparr>
                        else if value1 < value2 then obj\<lparr>lterms := lterms obj @ [(1, k), (- 1, k + 1)]\<rparr>
                        else obj)
                     else obj)
         in adjust_variable_pair_loop X (k + 2) obj')
      else obj)"
  by pat_completeness auto
termination
  by (relation "measure (\<lambda>(X, k, obj). length X - k)") auto

declare adjust_variable_pair_loop.simps [simp del]

definition adjust_variable_pair_in_objective :: "real list \<Rightarrow> GRBLinExpr \<Rightarrow> GRBLinExpr" where
  "adjust_variable_pair_in_objective X obj = adjust_variable_pair_loop X 0 obj"

text \<open>\<^verbatim>\<open>adjust_conflict_edge_vertices_in_objective\<close>: per edge, bit \<open>i = 0\<close> then \<open>i = 1\<close>.\<close>

definition adjust_edge_bit :: "real list \<Rightarrow> vertex \<Rightarrow> vertex \<Rightarrow> nat \<Rightarrow> GRBLinExpr \<Rightarrow> GRBLinExpr" where
  "adjust_edge_bit X s t i obj =
     (let bitIdxS = 2 * s + i;
          bitIdxT = 2 * t + i;
          value1 = X ! bitIdxS;
          value2 = X ! bitIdxT
      in if value1 > value2 then obj\<lparr>lterms := lterms obj @ [(1, bitIdxT), (- 1, bitIdxS)]\<rparr>
         else if value1 < value2 then obj\<lparr>lterms := lterms obj @ [(1, bitIdxS), (- 1, bitIdxT)]\<rparr>
         else obj)"

definition adjust_conflict_edge_vertices_in_objective :: "graph \<Rightarrow> real list \<Rightarrow> GRBLinExpr \<Rightarrow> GRBLinExpr" where
  "adjust_conflict_edge_vertices_in_objective g X obj =
     fold (\<lambda>e ob. adjust_edge_bit X (source e) (target e) 1 (adjust_edge_bit X (source e) (target e) 0 ob))
          (edges g) obj"

text \<open>The coefficient a linear expression gives to variable \<open>v\<close>.\<close>

definition coeff_of :: "GRBLinExpr \<Rightarrow> nat \<Rightarrow> real" where
  "coeff_of e v = sum_list (map fst (filter (\<lambda>t. snd t = v) (lterms e)))"

section \<open>\<^verbatim>\<open>get_odd_cycles\<close>\<close>

text \<open>
  The local state of the search: the three vectors indexed by vertex, the stack (a vector,
  top at the back) and the output list of cycles.
\<close>

record dfs_state =
  vNodeDistColor :: "int list"
  vNodeVisited :: "bool list"
  vInCycle :: "bool list"
  vVertexStack :: "vertex list"
  vOddCyle :: "vertex list list"

text \<open>
  The first loop over the neighbours of the stack top: the first neighbour whose distance
  entry is \<open>-1\<close>, if any.  A neighbour that is no index of the vector is an error.
\<close>

fun first_unseen :: "int list \<Rightarrow> vertex list \<Rightarrow> error + vertex option" where
  "first_unseen distColor [] = Inr None"
| "first_unseen distColor (u # us) =
     (if length distColor \<le> u then Inl OutOfRange
      else if distColor ! u = - 1 then Inr (Some u)
      else first_unseen distColor us)"

text \<open>
  The trace of a cycle down the stack (given top first): every vertex met is appended to
  the cycle and flagged, until \<open>u\<close> is met or the stack is exhausted.
\<close>

fun trace_cycle :: "vertex list \<Rightarrow> vertex \<Rightarrow> vertex list \<Rightarrow> bool list \<Rightarrow> vertex list \<times> bool list" where
  "trace_cycle [] u cycle inC = (cycle, inC)"
| "trace_cycle (x # xs) u cycle inC =
     (if x = u then (cycle @ [x], inC[x := True])
      else trace_cycle xs u (cycle @ [x]) (inC[x := True]))"

text \<open>The second loop over the neighbours of \<open>cv\<close>, run when nothing was pushed.\<close>

fun detect_cycles :: "vertex \<Rightarrow> vertex \<Rightarrow> vertex list \<Rightarrow> dfs_state \<Rightarrow> error + dfs_state" where
  "detect_cycles v cv [] s = Inr s"
| "detect_cycles v cv (u # us) s =
     (if length (vNodeVisited s) \<le> u \<or> length (vNodeDistColor s) \<le> u \<or> length (vNodeDistColor s) \<le> cv
      then Inl OutOfRange
      else if vNodeVisited s ! u \<and> vNodeDistColor s ! u = vNodeDistColor s ! cv then
        (let (cycle, inC) = trace_cycle (rev (vVertexStack s)) u [] ((vInCycle s)[v := True])
         in detect_cycles v cv us
              (s\<lparr>vInCycle := inC,
                 vOddCyle := (if cycle \<noteq> [] \<and> inC ! v then vOddCyle s @ [cycle] else vOddCyle s)\<rparr>))
      else detect_cycles v cv us s)"

text \<open>
  One iteration of the \<^verbatim>\<open>while\<close> loop.  The two assignments to
  \<^verbatim>\<open>vNodeDistColor[u]\<close> are both there: first \<open>1 - vNodeDistColor[cv]\<close>, then
  \<^verbatim>\<open>true\<close>, which is 1 in an \<^verbatim>\<open>int32_t\<close>.
\<close>

definition dfs_step :: "graph \<Rightarrow> vertex \<Rightarrow> dfs_state \<Rightarrow> error + dfs_state" where
  "dfs_step g v s =
     (let cv = last (vVertexStack s) in
      if length (vNodeDistColor s) \<le> cv then Inl OutOfRange
      else case first_unseen (vNodeDistColor s) (adjacent_vertices cv g) of
        Inl e \<Rightarrow> Inl e
      | Inr (Some u) \<Rightarrow>
          Inr (s\<lparr>vNodeDistColor := ((vNodeDistColor s)[u := 1 - vNodeDistColor s ! cv])[u := 1],
                 vVertexStack := vVertexStack s @ [u]\<rparr>)
      | Inr None \<Rightarrow>
          (case detect_cycles v cv (adjacent_vertices cv g) s of
             Inl e \<Rightarrow> Inl e
           | Inr s' \<Rightarrow>
               Inr (s'\<lparr>vVertexStack := butlast (vVertexStack s'),
                       vNodeVisited := (vNodeVisited s')[cv := False]\<rparr>)))"

definition dfs_measure :: "dfs_state \<Rightarrow> nat" where
  "dfs_measure s = 2 * count_list (vNodeDistColor s) (- 1) + length (vVertexStack s)"

text \<open>Every iteration of the loop decreases \<open>dfs_measure\<close>: the loop is a total function.\<close>

lemma first_unseen_Some:
  "first_unseen d us = Inr (Some u) \<Longrightarrow> u < length d \<and> d ! u = - 1"
  by (induction us) (auto split: if_splits)

lemma count_list_update_Suc:
  "u < length xs \<Longrightarrow> xs ! u = a \<Longrightarrow> b \<noteq> a \<Longrightarrow> Suc (count_list (xs[u := b]) a) = count_list xs a"
  by (induction xs arbitrary: u) (auto split: nat.splits simp: nth_Cons')

lemma detect_cycles_keeps:
  "detect_cycles v cv us s = Inr s' \<Longrightarrow>
     vNodeDistColor s' = vNodeDistColor s \<and> vVertexStack s' = vVertexStack s \<and>
     vNodeVisited s' = vNodeVisited s"
  by (induction us arbitrary: s) (auto split: if_splits prod.splits)

lemma dfs_step_measure:
  assumes ne: "vVertexStack s \<noteq> []" and st: "dfs_step g v s = Inr s'"
  shows "dfs_measure s' < dfs_measure s"
proof (cases "first_unseen (vNodeDistColor s) (adjacent_vertices (last (vVertexStack s)) g)")
  case (Inl e)
  with st show ?thesis by (simp add: dfs_step_def Let_def split: if_splits)
next
  case (Inr r)
  show ?thesis
  proof (cases r)
    case None
    with Inr st obtain s1 where
      d: "detect_cycles v (last (vVertexStack s)) (adjacent_vertices (last (vVertexStack s)) g) s = Inr s1"
      and s': "s' = s1\<lparr>vVertexStack := butlast (vVertexStack s1),
                       vNodeVisited := (vNodeVisited s1)[last (vVertexStack s) := False]\<rparr>"
      by (auto simp: dfs_step_def Let_def split: if_splits sum.splits)
    from detect_cycles_keeps[OF d] s' ne show ?thesis
      by (cases "vVertexStack s" rule: rev_cases) (simp_all add: dfs_measure_def)
  next
    case (Some u)
    with Inr st have s': "s' = s\<lparr>vNodeDistColor :=
          ((vNodeDistColor s)[u := 1 - vNodeDistColor s ! last (vVertexStack s)])[u := 1],
          vVertexStack := vVertexStack s @ [u]\<rparr>"
      by (simp add: dfs_step_def Let_def split: if_splits)
    from Some Inr have "u < length (vNodeDistColor s)" "vNodeDistColor s ! u = - 1"
      using first_unseen_Some by blast+
    then have "Suc (count_list ((vNodeDistColor s)[u := 1]) (- 1)) = count_list (vNodeDistColor s) (- 1)"
      by (intro count_list_update_Suc) simp_all
    with s' show ?thesis by (simp add: dfs_measure_def)
  qed
qed

function dfs_loop :: "graph \<Rightarrow> vertex \<Rightarrow> dfs_state \<Rightarrow> error + dfs_state" where
  "dfs_loop g v s =
     (if vVertexStack s = [] then Inr s
      else case dfs_step g v s of
             Inl e \<Rightarrow> Inl e
           | Inr s' \<Rightarrow> dfs_loop g v s')"
  by pat_completeness auto
termination
  by (relation "measure (\<lambda>(g, v, s). dfs_measure s)") (auto intro: dfs_step_measure)

declare dfs_loop.simps [simp del]

text \<open>The state before the loop: the root is visited, has distance colour 0 and is on the stack.\<close>

definition dfs_init :: "graph \<Rightarrow> vertex \<Rightarrow> dfs_state" where
  "dfs_init g v =
     \<lparr>vNodeDistColor = (replicate (numVertices g) (- 1))[v := 0],
      vNodeVisited = (replicate (numVertices g) False)[v := True],
      vInCycle = replicate (numVertices g) False,
      vVertexStack = [v],
      vOddCyle = []\<rparr>"

definition get_odd_cycles :: "graph \<Rightarrow> vertex \<Rightarrow> error + vertex list list" where
  "get_odd_cycles g v =
     (if numVertices g \<le> v then Inl OutOfRange
      else case dfs_loop g v (dfs_init g v) of
             Inl e \<Rightarrow> Inl e
           | Inr s \<Rightarrow> Inr (vOddCyle s))"

section \<open>\<^verbatim>\<open>add_odd_cycle_constraints\<close>\<close>

text \<open>The four constraints of one odd cycle, in the order of the source.\<close>

definition odd_cycle_constraints :: "vertex list \<Rightarrow> GRBConstr list" where
  "odd_cycle_constraints oddCycle =
     (let cycleLength = int (length oddCycle);
          constraint1 = \<lparr>lconst = 0, lterms = map (\<lambda>u. (1, 2 * u)) oddCycle\<rparr>;
          constraint2 = \<lparr>lconst = 0, lterms = map (\<lambda>u. (1, 2 * u + 1)) oddCycle\<rparr>
      in [ \<lparr>lhs = constraint1, Sense = CHR ''>'', RHS = 1\<rparr>,
           \<lparr>lhs = constraint1, Sense = CHR ''<'', RHS = of_int (cycleLength - 1)\<rparr>,
           \<lparr>lhs = constraint2, Sense = CHR ''>'', RHS = 1\<rparr>,
           \<lparr>lhs = constraint2, Sense = CHR ''<'', RHS = of_int (cycleLength - 1)\<rparr> ])"

text \<open>
  The loop over the roots \<open>v = k>>1\<close> for \<open>k = 0, 2, \<dots>\<close>; the constraint list of the
  model and \<^verbatim>\<open>m_constrs_num\<close> are threaded.
\<close>

fun add_odd_cycle_loop :: "graph \<Rightarrow> vertex list \<Rightarrow> GRBConstr list \<Rightarrow> nat \<Rightarrow> error + GRBConstr list \<times> nat" where
  "add_odd_cycle_loop g [] cs k = Inr (cs, k)"
| "add_odd_cycle_loop g (v # vs) cs k =
     (case get_odd_cycles g v of
        Inl e \<Rightarrow> Inl e
      | Inr cycles \<Rightarrow>
          add_odd_cycle_loop g vs (cs @ concat (map odd_cycle_constraints cycles))
            (k + 4 * length cycles))"

definition add_odd_cycle_constraints :: "graph \<Rightarrow> nat \<Rightarrow> GRBModel \<Rightarrow> nat \<Rightarrow> error + GRBModel \<times> nat" where
  "add_odd_cycle_constraints g numColorBits optModel m_constrs_num =
     (case add_odd_cycle_loop g [0 ..< (numColorBits + 1) div 2] (constrs optModel) m_constrs_num of
        Inl e \<Rightarrow> Inl e
      | Inr (cs, k) \<Rightarrow> Inr (optModel\<lparr>constrs := cs\<rparr>, k))"

section \<open>The LP engine's answers and the non-integer census\<close>

text \<open>
  What the LP engine reports for a model: the value \<^verbatim>\<open>GRB_DoubleAttr_X\<close> of every
  variable and the slack \<^verbatim>\<open>GRB_DoubleAttr_Slack\<close> of every constraint, by position.
\<close>

record solution =
  sol_X :: "real list"
  sol_Slack :: "real list"

text \<open>The census over one vector of variables; the counters are \<^verbatim>\<open>uint32_t\<close>.\<close>

definition non_integer_num_vars :: "real list \<Rightarrow> 32 word \<times> 32 word" where
  "non_integer_num_vars vVariables =
     fold (\<lambda>value (nonIntegerNum, halfIntegerNum).
             if value \<noteq> 0 \<and> value \<noteq> 1
             then (nonIntegerNum + 1, if value = 1 / 2 then halfIntegerNum + 1 else halfIntegerNum)
             else (nonIntegerNum, halfIntegerNum))
          vVariables (0, 0)"

record NonIntegerInfo =
  vertex_non_integer_num :: "32 word"
  edge_non_integer_num :: "32 word"
  vertex_half_integer_num :: "32 word"
  edge_half_integer_num :: "32 word"

text \<open>The default constructor: every counter is \<^verbatim>\<open>numeric_limits<uint32_t>::max()\<close>.\<close>

definition NonIntegerInfo_init :: NonIntegerInfo where
  "NonIntegerInfo_init =
     \<lparr>vertex_non_integer_num = - 1, edge_non_integer_num = - 1,
      vertex_half_integer_num = - 1, edge_half_integer_num = - 1\<rparr>"

text \<open>
  The values of \<^verbatim>\<open>vColorBits\<close> are the first \<open>numColorBits\<close> entries of the solution,
  those of \<^verbatim>\<open>vEdgeBits\<close> the rest.
\<close>

definition non_integer_num :: "nat \<Rightarrow> real list \<Rightarrow> NonIntegerInfo" where
  "non_integer_num numColorBits vals =
     (let vc = non_integer_num_vars (take numColorBits vals);
          ec = non_integer_num_vars (drop numColorBits vals)
      in \<lparr>vertex_non_integer_num = fst vc, edge_non_integer_num = fst ec,
          vertex_half_integer_num = snd vc, edge_half_integer_num = snd ec\<rparr>)"

section \<open>\<^verbatim>\<open>rounding_with_binding_analysis\<close>\<close>

record ConstrVariableInfo =
  coeff :: real
  sense :: char

definition same_direction :: "ConstrVariableInfo \<Rightarrow> ConstrVariableInfo \<Rightarrow> bool" where
  "same_direction info rhs =
     (if coeff info = 0 \<or> coeff rhs = 0 then True
      else if sense info = sense rhs
        then (coeff info > 0 \<and> coeff rhs > 0) \<or> (coeff info < 0 \<and> coeff rhs < 0)
        else (coeff info > 0 \<and> coeff rhs < 0) \<or> (coeff info < 0 \<and> coeff rhs > 0))"

text \<open>
  The column of a variable: the positions of the constraints in which it has a non-zero
  coefficient, in the order of the model.
\<close>

definition getCol :: "GRBModel \<Rightarrow> nat \<Rightarrow> nat list" where
  "getCol m v = filter (\<lambda>c. getCoeff (constrs m ! c) v \<noteq> 0) [0 ..< length (constrs m)]"

text \<open>
  The local variables of the scan of one vertex pair.  \<^verbatim>\<open>mValidColorBits[b1][b2]\<close> is
  \<open>mValidColorBits st b1 b2\<close>; the two-element arrays of constraint information are pairs.
\<close>

record scan_state =
  prevConstrInfo :: "ConstrVariableInfo \<times> ConstrVariableInfo"
  curConstrInfo :: "ConstrVariableInfo \<times> ConstrVariableInfo"
  mValidColorBits :: "nat \<Rightarrow> nat \<Rightarrow> bool"
  invalidCount :: nat
  failFlag :: bool

definition scan_init :: "ColorNumType \<Rightarrow> scan_state" where
  "scan_init color_num =
     \<lparr>prevConstrInfo = (\<lparr>coeff = 0, sense = CHR ''>''\<rparr>, \<lparr>coeff = 0, sense = CHR ''>''\<rparr>),
      curConstrInfo = (\<lparr>coeff = 0, sense = CHR ''>''\<rparr>, \<lparr>coeff = 0, sense = CHR ''>''\<rparr>),
      mValidColorBits = (\<lambda>b1 b2. \<not> (color_num = THREE \<and> b1 = 1 \<and> b2 = 1)),
      invalidCount = 0,
      failFlag = False\<rparr>"

text \<open>The candidates \<open>(b1, b2)\<close> in the order of the two nested loops.\<close>

definition candidates :: "(nat \<times> nat) list" where
  "candidates = [(0, 0), (0, 1), (1, 0), (1, 1)]"

text \<open>The test of one candidate against one binding constraint.\<close>

definition delta_of :: "real \<Rightarrow> real \<Rightarrow> real \<Rightarrow> real \<Rightarrow> nat \<Rightarrow> nat \<Rightarrow> real" where
  "delta_of a1 a2 value1 value2 b1 b2 = a1 * (real b1 - value1) + a2 * (real b2 - value2)"

definition check_candidate ::
  "real \<Rightarrow> real \<Rightarrow> ConstrVariableInfo \<times> ConstrVariableInfo \<Rightarrow> char \<Rightarrow> nat \<times> nat \<Rightarrow>
   (nat \<Rightarrow> nat \<Rightarrow> bool) \<times> nat \<Rightarrow> (nat \<Rightarrow> nat \<Rightarrow> bool) \<times> nat" where
  "check_candidate value1 value2 cur sns b vc =
     (let b1 = fst b; b2 = snd b; valid = fst vc; cnt = snd vc in
      if valid b1 b2 then
        (let delta = delta_of (coeff (fst cur)) (coeff (snd cur)) value1 value2 b1 b2 in
         if (sns = CHR ''>'' \<and> delta < 0) \<or> (sns = CHR ''<'' \<and> delta > 0)
         then (valid(b1 := (valid b1)(b2 := False)), cnt + 1)
         else (valid, cnt))
      else (valid, cnt))"

definition check_all_candidates ::
  "real \<Rightarrow> real \<Rightarrow> ConstrVariableInfo \<times> ConstrVariableInfo \<Rightarrow> char \<Rightarrow>
   (nat \<Rightarrow> nat \<Rightarrow> bool) \<times> nat \<Rightarrow> (nat \<Rightarrow> nat \<Rightarrow> bool) \<times> nat" where
  "check_all_candidates value1 value2 cur sns vc =
     fold (check_candidate value1 value2 cur sns) candidates vc"

text \<open>
  The body of the loop over a column, for the constraint at position \<open>c\<close> of the model;
  \<open>i\<close> is the index of the pair's first variable.  A constraint whose slack is not 0 is
  skipped (\<^verbatim>\<open>continue\<close>); the two \<^verbatim>\<open>break\<close>s leave the loop with
  \<open>failFlag\<close> set.
\<close>

datatype 'a loop_step = Continue 'a | Break 'a

definition scan_constr :: "GRBModel \<Rightarrow> solution \<Rightarrow> nat \<Rightarrow> nat \<Rightarrow> scan_state \<Rightarrow> scan_state loop_step" where
  "scan_constr m sol i c st =
     (if sol_Slack sol ! c \<noteq> 0 then Continue st
      else
        (let constr = constrs m ! c;
             sns = Sense constr;
             cur = (\<lparr>coeff = getCoeff constr i, sense = sns\<rparr>,
                    \<lparr>coeff = getCoeff constr (i + 1), sense = sns\<rparr>)
         in if \<not> same_direction (fst cur) (fst (prevConstrInfo st)) \<or>
               \<not> same_direction (snd cur) (snd (prevConstrInfo st))
            then Break (st\<lparr>curConstrInfo := cur, failFlag := True\<rparr>)
            else
              (let vc = check_all_candidates (sol_X sol ! i) (sol_X sol ! (i + 1)) cur sns
                          (mValidColorBits st, invalidCount st)
               in if snd vc = 4
                  then Break (st\<lparr>curConstrInfo := cur, mValidColorBits := fst vc,
                                 invalidCount := snd vc, failFlag := True\<rparr>)
                  else Continue (st\<lparr>prevConstrInfo := cur, curConstrInfo := cur,
                                    mValidColorBits := fst vc, invalidCount := snd vc\<rparr>))))"

text \<open>The loop over one column, given as the positions of its constraints.\<close>

fun scan_column :: "GRBModel \<Rightarrow> solution \<Rightarrow> nat \<Rightarrow> nat list \<Rightarrow> scan_state \<Rightarrow> scan_state" where
  "scan_column m sol i [] st = st"
| "scan_column m sol i (c # col) st =
     (case scan_constr m sol i c st of
        Break st' \<Rightarrow> st'
      | Continue st' \<Rightarrow> scan_column m sol i col st')"

text \<open>The loop \<^verbatim>\<open>for (j = 0; j != 2 && !failFlag; ++j)\<close> over the two columns.\<close>

definition scan_pair :: "ColorNumType \<Rightarrow> GRBModel \<Rightarrow> solution \<Rightarrow> nat \<Rightarrow> scan_state" where
  "scan_pair color_num m sol i =
     (let st = scan_column m sol i (getCol m i) (scan_init color_num)
      in if failFlag st then st else scan_column m sol i (getCol m (i + 1)) st)"

text \<open>The final step: every candidate still valid writes the four bounds, in loop order.\<close>

definition apply_candidate :: "nat \<Rightarrow> (nat \<Rightarrow> nat \<Rightarrow> bool) \<Rightarrow> nat \<times> nat \<Rightarrow> GRBModel \<Rightarrow> GRBModel" where
  "apply_candidate i valid b m =
     (if valid (fst b) (snd b)
      then m\<lparr>var_ub := (var_ub m)[i := real (fst b), i + 1 := real (snd b)],
             var_lb := (var_lb m)[i := real (fst b), i + 1 := real (snd b)]\<rparr>
      else m)"

definition apply_rounding :: "nat \<Rightarrow> scan_state \<Rightarrow> GRBModel \<Rightarrow> GRBModel" where
  "apply_rounding i st m =
     (if failFlag st then m else fold (apply_candidate i (mValidColorBits st)) candidates m)"

text \<open>
  The loop over the vertex pairs \<open>i = 0, 2, \<dots>\<close>.  The source calls no
  \<^verbatim>\<open>optimize\<close> here; \<open>engine m\<close> is what the LP engine reports for the model as it
  stands when it is asked.
\<close>

function rounding_pairs ::
  "ColorNumType \<Rightarrow> (GRBModel \<Rightarrow> solution) \<Rightarrow> nat \<Rightarrow> nat \<Rightarrow> GRBModel \<Rightarrow> GRBModel" where
  "rounding_pairs color_num engine ie i m =
     (if i < ie then
        (let sol = engine m;
             value1 = sol_X sol ! i;
             value2 = sol_X sol ! (i + 1)
         in if \<not> (value1 = 1 / 2 \<and> value2 = 1 / 2)
            then rounding_pairs color_num engine ie (i + 2) m
            else rounding_pairs color_num engine ie (i + 2)
                   (apply_rounding i (scan_pair color_num m sol i) m))
      else m)"
  by pat_completeness auto
termination
  by (relation "measure (\<lambda>(color_num, engine, ie, i, m). ie - i)") auto

declare rounding_pairs.simps [simp del]

text \<open>
  The \<^verbatim>\<open>while\<close> loop of \<^verbatim>\<open>rounding_with_binding_analysis\<close>.  The last argument
  counts the iterations; it is not a variable of the source.
\<close>

function rounding_loop ::
  "ColorNumType \<Rightarrow> (GRBModel \<Rightarrow> solution) \<Rightarrow> nat \<Rightarrow> NonIntegerInfo \<Rightarrow> NonIntegerInfo \<Rightarrow>
   GRBModel \<Rightarrow> nat \<Rightarrow> GRBModel \<times> nat" where
  "rounding_loop color_num engine numColorBits prevInfo curInfo m iters =
     (if vertex_non_integer_num curInfo > 0 \<and>
         vertex_non_integer_num curInfo < vertex_non_integer_num prevInfo
      then
        (let m' = rounding_pairs color_num engine numColorBits 0 m
         in rounding_loop color_num engine numColorBits curInfo
              (non_integer_num numColorBits (sol_X (engine m'))) m' (Suc iters))
      else (m, iters))"
  by pat_completeness auto
termination
  by (relation "measure (\<lambda>(color_num, engine, numColorBits, prevInfo, curInfo, m, iters).
        unat (vertex_non_integer_num prevInfo))") (auto simp: word_less_nat_alt)

declare rounding_loop.simps [simp del]

definition rounding_with_binding_analysis ::
  "ColorNumType \<Rightarrow> (GRBModel \<Rightarrow> solution) \<Rightarrow> nat \<Rightarrow> GRBModel \<Rightarrow> GRBModel \<times> nat" where
  "rounding_with_binding_analysis color_num engine numColorBits m =
     rounding_loop color_num engine numColorBits NonIntegerInfo_init
       (non_integer_num numColorBits (sol_X (engine m))) m 0"

section \<open>The iterative refiner of \<^verbatim>\<open>coloring\<close>\<close>

text \<open>
  The state of the refiner: the model, the objective \<^verbatim>\<open>obj\<close>, \<^verbatim>\<open>m_constrs_num\<close> and
  the solution of the last \<^verbatim>\<open>optimize\<close>.  \<open>optimize\<close> is the LP engine: \<open>None\<close> when it
  reports \<^verbatim>\<open>GRB_INFEASIBLE\<close>, on which the source's assertion fails.
  The last argument of the loop counts the iterations; it is not a variable of the source.
\<close>

record lp_state =
  optModel :: GRBModel
  objExpr :: GRBLinExpr
  constrsNum :: nat
  cur_sol :: solution

function coloring_loop ::
  "graph \<Rightarrow> (GRBModel \<Rightarrow> GRBLinExpr \<Rightarrow> solution option) \<Rightarrow> nat \<Rightarrow> NonIntegerInfo \<Rightarrow>
   NonIntegerInfo \<Rightarrow> lp_state \<Rightarrow> nat \<Rightarrow> error + lp_state \<times> nat" where
  "coloring_loop g optimize numColorBits prevInfo curInfo st iters =
     (if vertex_non_integer_num curInfo > 0 \<and>
         vertex_non_integer_num curInfo < vertex_non_integer_num prevInfo
      then
        (let vals = sol_X (cur_sol st);
             obj1 = adjust_variable_pair_in_objective (take numColorBits vals) (objExpr st);
             obj2 = adjust_conflict_edge_vertices_in_objective g vals obj1
         in case add_odd_cycle_constraints g numColorBits (optModel st) (constrsNum st) of
              Inl e \<Rightarrow> Inl e
            | Inr mk \<Rightarrow>
                (case optimize (fst mk) obj2 of
                   None \<Rightarrow> Inl AssertionFailed
                 | Some sol \<Rightarrow>
                     coloring_loop g optimize numColorBits curInfo
                       (non_integer_num numColorBits (sol_X sol))
                       \<lparr>optModel = fst mk, objExpr = obj2, constrsNum = snd mk, cur_sol = sol\<rparr>
                       (Suc iters)))
      else Inr (st, iters))"
  by pat_completeness auto
termination
  by (relation "measure (\<lambda>(g, optimize, numColorBits, prevInfo, curInfo, st, iters).
        unat (vertex_non_integer_num prevInfo))") (auto simp: word_less_nat_alt)

declare coloring_loop.simps [simp del]

section \<open>\<^verbatim>\<open>set_anchor\<close>\<close>

definition degree :: "vertex \<Rightarrow> graph \<Rightarrow> nat" where
  "degree v g = length (adjacent_vertices v g)"

definition max_degree_vertex :: "graph \<Rightarrow> vertex" where
  "max_degree_vertex g =
     fst (fold (\<lambda>vi (u, maxDegree). let d = degree vi g in if d > maxDegree then (vi, d) else (u, maxDegree))
               [0 ..< numVertices g] (0, 0))"

text \<open>\<open>has_precolored\<close> is the answer of the base class; it is a parameter here.\<close>

definition set_anchor :: "bool \<Rightarrow> graph \<Rightarrow> GRBModel \<Rightarrow> GRBModel" where
  "set_anchor has_precolored g m =
     (if has_precolored then m
      else
        (let anchorVertex = max_degree_vertex g;
             bitIdxAnchor = 2 * anchorVertex
         in m\<lparr>var_ub := (var_ub m)[bitIdxAnchor := 0, bitIdxAnchor + 1 := 0],
               var_lb := (var_lb m)[bitIdxAnchor := 0, bitIdxAnchor + 1 := 0]\<rparr>))"

section \<open>\<^verbatim>\<open>post_refinement\<close> and \<^verbatim>\<open>refine_color\<close>\<close>

text \<open>
  \<^verbatim>\<open>m_vColor\<close> is the vector of colours, one \<^verbatim>\<open>int8_t\<close> per vertex.
  \<^verbatim>\<open>mValidColors\<close> is declared \<^verbatim>\<open>bool[2][4]\<close>: a list of two rows of four flags.
  An index outside a vector or outside the two rows is the error \<open>OutOfRange\<close>.
\<close>

text \<open>
  The loop over the neighbours \<open>u\<close> of \<open>cv\<close>: every neighbour other than \<open>ov\<close> clears
  \<^verbatim>\<open>mValidColors[0][m_vColor[u]]\<close>.
\<close>

fun mark_neighbors :: "int list \<Rightarrow> vertex \<Rightarrow> vertex list \<Rightarrow> bool list list \<Rightarrow> error + bool list list" where
  "mark_neighbors m_vColor ov [] mValidColors = Inr mValidColors"
| "mark_neighbors m_vColor ov (u # us) mValidColors =
     (if u \<noteq> ov then
        (if length m_vColor \<le> u then Inl OutOfRange
         else if m_vColor ! u < 0 \<or> 4 \<le> m_vColor ! u then Inl OutOfRange
         else mark_neighbors m_vColor ov us
                (mValidColors[0 := (mValidColors ! 0)[nat (m_vColor ! u) := False]]))
      else mark_neighbors m_vColor ov us mValidColors)"

text \<open>The loop \<^verbatim>\<open>for (i = 0; i != 2; ++i)\<close>: first \<open>cv = v[0]\<close>, then \<open>cv = v[1]\<close>.\<close>

definition mark_both :: "graph \<Rightarrow> int list \<Rightarrow> vertex \<Rightarrow> vertex \<Rightarrow> bool list list \<Rightarrow> error + bool list list" where
  "mark_both g m_vColor v0 v1 mValidColors =
     (case mark_neighbors m_vColor v1 (adjacent_vertices v0 g) mValidColors of
        Inl e \<Rightarrow> Inl e
      | Inr mv \<Rightarrow> mark_neighbors m_vColor v0 (adjacent_vertices v1 g) mv)"

text \<open>The colour pairs \<open>(c1, c2)\<close> in the order of the two nested loops.\<close>

definition color_pairs :: "(nat \<times> nat) list" where
  "color_pairs = List.product [0, 1, 2, 3] [0, 1, 2, 3]"

text \<open>
  The two nested loops over \<open>c1\<close> and \<open>c2\<close>, on the pairs that are left.  The test
  \<^verbatim>\<open>c1 != c2 && mValidColors[c1][c2]\<close> reads row \<open>c1\<close> only when \<open>c1 \<noteq> c2\<close>.
\<close>

fun try_colors ::
  "graph \<Rightarrow> vertex \<Rightarrow> vertex \<Rightarrow> (nat \<times> nat) list \<Rightarrow> bool list list \<Rightarrow> int list \<Rightarrow>
   error + bool \<times> int list" where
  "try_colors g v0 v1 [] mValidColors m_vColor = Inr (False, m_vColor)"
| "try_colors g v0 v1 ((c1, c2) # rest) mValidColors m_vColor =
     (if c1 = c2 then try_colors g v0 v1 rest mValidColors m_vColor
      else if length mValidColors \<le> c1 then Inl OutOfRange
      else if mValidColors ! c1 ! c2 then
        (case mark_both g m_vColor v0 v1 mValidColors of
           Inl e \<Rightarrow> Inl e
         | Inr mv \<Rightarrow>
             if mv ! c1 ! c2
             then Inr (True, m_vColor[v0 := int c1, v1 := int c2])
             else try_colors g v0 v1 rest mv m_vColor)
      else try_colors g v0 v1 rest mValidColors m_vColor)"

definition refine_color :: "ColorNumType \<Rightarrow> graph \<Rightarrow> int list \<Rightarrow> edge \<Rightarrow> error + bool \<times> int list" where
  "refine_color color_num g m_vColor e =
     (let v0 = source e; v1 = target e in
      if length m_vColor \<le> v0 \<or> length m_vColor \<le> v1 then Inl OutOfRange
      else if m_vColor ! v0 \<noteq> m_vColor ! v1 then Inr (False, m_vColor)
      else try_colors g v0 v1 color_pairs
             [[True, True, True, color_num \<noteq> THREE], [True, True, True, color_num \<noteq> THREE]]
             m_vColor)"

text \<open>The loop of \<^verbatim>\<open>post_refinement\<close> over the edges; \<open>count\<close> adds up the results.\<close>

fun refine_edges :: "ColorNumType \<Rightarrow> graph \<Rightarrow> edge list \<Rightarrow> nat \<Rightarrow> int list \<Rightarrow> error + nat \<times> int list" where
  "refine_edges color_num g [] count m_vColor = Inr (count, m_vColor)"
| "refine_edges color_num g (e # es) count m_vColor =
     (case refine_color color_num g m_vColor e of
        Inl err \<Rightarrow> Inl err
      | Inr (r, m_vColor') \<Rightarrow>
          refine_edges color_num g es (count + (if r then 1 else 0)) m_vColor')"

definition post_refinement :: "ColorNumType \<Rightarrow> bool \<Rightarrow> graph \<Rightarrow> int list \<Rightarrow> error + nat \<times> int list" where
  "post_refinement color_num has_precolored g m_vColor =
     (if \<not> has_precolored then refine_edges color_num g (edges g) 0 m_vColor
      else Inr (0, m_vColor))"

text \<open>The number of edges whose two endpoints hold the same colour.\<close>

definition conflict_num :: "graph \<Rightarrow> int list \<Rightarrow> nat" where
  "conflict_num g m_vColor =
     length (filter (\<lambda>e. m_vColor ! source e = m_vColor ! target e) (edges g))"

section \<open>The min-cost-flow engine adapters\<close>

text \<open>
  Modelled from the spec: the method and pivot-rule enumerations are those of the flow
  library, which is not among the sources; their members are the ones the spec and the
  comments on the adapters' members list.
\<close>

datatype CostScalingMethod = PUSH | AUGMENT | PARTIAL_AUGMENT

datatype PivotRule = FIRST_ELIGIBLE | BEST_ELIGIBLE | BLOCK_SEARCH | CANDIDATE_LIST | ALTERING_LIST

datatype CycleCancelingMethod = SIMPLE_CYCLE_CANCELING | MINIMUM_MEAN_CYCLE_CANCELING | CANCEL_AND_TIGHTEN

record CapacityScaling =
  m_factor :: int

record CostScaling =
  m_method :: CostScalingMethod
  m_factor :: int

record NetworkSimplex =
  m_pivotRule :: PivotRule

record CycleCanceling =
  m_method :: CycleCancelingMethod

text \<open>
  Modelled from the spec: the body of the constructor \<^verbatim>\<open>CapacityScaling(int factor = 4)\<close>
  is in \<^verbatim>\<open>DualMinCostFlow.cpp\<close>, which is not among the sources; it stores the argument
  in \<^verbatim>\<open>m_factor\<close>.  The default argument is that of the declaration in
  \<^verbatim>\<open>DualMinCostFlow.h\<close>; an argument that is left out is \<open>None\<close>.
\<close>

definition new_CapacityScaling :: "int option \<Rightarrow> CapacityScaling" where
  "new_CapacityScaling factor = \<lparr>CapacityScaling.m_factor = (case factor of None \<Rightarrow> 4 | Some f \<Rightarrow> f)\<rparr>"

text \<open>
  Modelled from the spec: the body of the constructor
  \<^verbatim>\<open>CostScaling(alg_type::Method method = alg_type::PARTIAL_AUGMENT, int factor = 16)\<close>
  is not among the sources; it stores the arguments in \<^verbatim>\<open>m_method\<close> and
  \<^verbatim>\<open>m_factor\<close>.  The default arguments are those of the declaration.
\<close>

definition new_CostScaling :: "CostScalingMethod option \<Rightarrow> int option \<Rightarrow> CostScaling" where
  "new_CostScaling method factor =
     \<lparr>CostScaling.m_method = (case method of None \<Rightarrow> PARTIAL_AUGMENT | Some m \<Rightarrow> m),
      CostScaling.m_factor = (case factor of None \<Rightarrow> 16 | Some f \<Rightarrow> f)\<rparr>"

text \<open>
  Modelled from the spec: the body of the constructor
  \<^verbatim>\<open>NetworkSimplex(alg_type::PivotRule pivotRule = alg_type::BLOCK_SEARCH)\<close> is not among
  the sources; it stores the argument in \<^verbatim>\<open>m_pivotRule\<close>.  The default argument is that
  of the declaration.
\<close>

definition new_NetworkSimplex :: "PivotRule option \<Rightarrow> NetworkSimplex" where
  "new_NetworkSimplex pivotRule =
     \<lparr>m_pivotRule = (case pivotRule of None \<Rightarrow> BLOCK_SEARCH | Some r \<Rightarrow> r)\<rparr>"

text \<open>
  Modelled from the spec: the body of the constructor
  \<^verbatim>\<open>CycleCanceling(alg_type::Method method = alg_type::CANCEL_AND_TIGHTEN)\<close> is not among
  the sources; it stores the argument in \<^verbatim>\<open>m_method\<close>.  The default argument is that of
  the declaration.
\<close>

definition new_CycleCanceling :: "CycleCancelingMethod option \<Rightarrow> CycleCanceling" where
  "new_CycleCanceling method =
     \<lparr>CycleCanceling.m_method = (case method of None \<Rightarrow> CANCEL_AND_TIGHTEN | Some m \<Rightarrow> m)\<rparr>"

section \<open>Notions used to state the properties, and example inputs\<close>

text \<open>
  A graph is well formed when the endpoints of every edge are vertices, and free of
  self-loops when the endpoints of every edge are distinct.
\<close>

definition wf_graph :: "graph \<Rightarrow> bool" where
  "wf_graph g \<longleftrightarrow> list_all (\<lambda>e. source e < numVertices g \<and> target e < numVertices g) (edges g)"

definition no_self_loops :: "graph \<Rightarrow> bool" where
  "no_self_loops g \<longleftrightarrow> list_all (\<lambda>e. source e \<noteq> target e) (edges g)"

text \<open>
  What holds of the search state whenever the loop condition is tested: only the root can
  be flagged visited, the root has distance value 0, every other vertex on the stack has
  distance value 1, and no cycle has been emitted.
\<close>

definition dfs_inv :: "graph \<Rightarrow> vertex \<Rightarrow> dfs_state \<Rightarrow> bool" where
  "dfs_inv g v s \<longleftrightarrow>
     length (vNodeDistColor s) = numVertices g \<and>
     length (vNodeVisited s) = numVertices g \<and>
     v < numVertices g \<and>
     vNodeDistColor s ! v = 0 \<and>
     (\<forall>u < numVertices g. vNodeVisited s ! u \<longrightarrow> u = v) \<and>
     (\<forall>x \<in> set (vVertexStack s). x < numVertices g \<and> (x \<noteq> v \<longrightarrow> vNodeDistColor s ! x = 1)) \<and>
     vOddCyle s = []"

text \<open>The state a loop step leaves, whether the loop goes on or is left.\<close>

primrec step_state :: "'a loop_step \<Rightarrow> 'a" where
  "step_state (Continue s) = s"
| "step_state (Break s) = s"

text \<open>The test that invalidates a candidate, on the sense and the value of \<open>delta\<close>.\<close>

definition invalidated :: "char \<Rightarrow> real \<Rightarrow> bool" where
  "invalidated sns delta \<longleftrightarrow> (sns = CHR ''>'' \<and> delta < 0) \<or> (sns = CHR ''<'' \<and> delta > 0)"

text \<open>The number of candidates that are flagged invalid.\<close>

definition num_invalid :: "(nat \<Rightarrow> nat \<Rightarrow> bool) \<Rightarrow> nat" where
  "num_invalid valid = length (filter (\<lambda>b. \<not> valid (fst b) (snd b)) candidates)"

text \<open>
  What holds during the scan of a pair when four colours are asked for: \<open>invalidCount\<close> is
  the number of invalid candidates, and \<open>failFlag\<close> is set once all four are invalid.
\<close>

definition scan_inv :: "scan_state \<Rightarrow> bool" where
  "scan_inv st \<longleftrightarrow>
     invalidCount st = num_invalid (mValidColorBits st) \<and>
     (num_invalid (mValidColorBits st) = 4 \<longrightarrow> failFlag st)"

text \<open>
  The slack the LP engine reports for a constraint at a point: the right-hand side minus
  the value of the left-hand side.
\<close>

definition slacks :: "GRBModel \<Rightarrow> real list \<Rightarrow> real list" where
  "slacks m X = map (\<lambda>c. RHS c - eval_expr X (lhs c)) (constrs m)"

text \<open>
  The constraint information that the scan builds for the constraint at position \<open>c\<close> of
  the model: its coefficients on the two variables of the pair, each with its sense.
\<close>

definition pair_info :: "GRBModel \<Rightarrow> nat \<Rightarrow> nat \<Rightarrow> ConstrVariableInfo \<times> ConstrVariableInfo" where
  "pair_info m i c =
     (\<lparr>coeff = getCoeff (constrs m ! c) i, sense = Sense (constrs m ! c)\<rparr>,
      \<lparr>coeff = getCoeff (constrs m ! c) (i + 1), sense = Sense (constrs m ! c)\<rparr>)"

text \<open>
  The direction in which a binding constraint lets its variable move: upwards when the
  coefficient is positive under sense \<^verbatim>\<open>>\<close> or not positive under another sense.
\<close>

definition up_dir :: "ConstrVariableInfo \<Rightarrow> bool" where
  "up_dir info \<longleftrightarrow> (coeff info > 0) = (sense info = CHR ''>'')"

text \<open>The two senses that the program gives to the constraints it adds.\<close>

definition sense_ok :: "char \<Rightarrow> bool" where
  "sense_ok s \<longleftrightarrow> s = CHR ''>'' \<or> s = CHR ''<''"


definition example_solution_a :: solution where
  "example_solution_a = \<lparr>sol_X = [1 / 2, 1 / 2], sol_Slack = [0, 0, 0]\<rparr>"

text \<open>
  A model over one vertex pair with the two constraints \<open>x0 \<ge> 1/2\<close> and \<open>x1 \<ge> 1/2\<close>,
  both binding at the point \<open>(1/2, 1/2)\<close>.
\<close>

definition example_model_b :: GRBModel where
  "example_model_b =
     \<lparr>var_lb = [0, 0], var_ub = [1, 1],
      constrs =
        [\<lparr>lhs = \<lparr>lconst = 0, lterms = [(1, 0)]\<rparr>, Sense = CHR ''>'', RHS = 1 / 2\<rparr>,
         \<lparr>lhs = \<lparr>lconst = 0, lterms = [(1, 1)]\<rparr>, Sense = CHR ''>'', RHS = 1 / 2\<rparr>]\<rparr>"

definition example_solution_b :: solution where
  "example_solution_b = \<lparr>sol_X = [1 / 2, 1 / 2], sol_Slack = [0, 0]\<rparr>"

text \<open>
  A model over one vertex pair with the constraints \<open>x0 \<ge> 1/2\<close>, \<open>x0 + 2 x1 \<ge> 3/2\<close>
  and the constraint \<open>x0 + x1 \<le> 1\<close> that three colours add, all binding at the point
  \<open>(1/2, 1/2)\<close> of the first example solution.
\<close>

definition example_three_model :: GRBModel where
  "example_three_model =
     \<lparr>var_lb = [0, 0], var_ub = [1, 1],
      constrs =
        [\<lparr>lhs = \<lparr>lconst = 0, lterms = [(1, 0)]\<rparr>, Sense = CHR ''>'', RHS = 1 / 2\<rparr>,
         \<lparr>lhs = \<lparr>lconst = 0, lterms = [(1, 0), (2, 1)]\<rparr>, Sense = CHR ''>'', RHS = 3 / 2\<rparr>,
         three_constraint 0]\<rparr>"

text \<open>
  A conflict graph on five vertices; vertex 0 has the largest degree and is the anchor.
\<close>

definition example_conflict_graph :: graph where
  "example_conflict_graph =
     \<lparr>numVertices = 5, edges = [(0, 1, 1), (0, 2, 1), (0, 4, 1), (1, 3, 1), (1, 2, 1)]\<rparr>"

text \<open>
  An example run: one edge, the first solution has vertex 1 at \<open>(1/2, 1/2)\<close>, and the LP
  engine answers every later \<^verbatim>\<open>optimize\<close> with an integer point.
\<close>

definition example_graph :: graph where
  "example_graph = \<lparr>numVertices = 2, edges = [(0, 1, 1)]\<rparr>"

definition example_engine :: "GRBModel \<Rightarrow> GRBLinExpr \<Rightarrow> solution option" where
  "example_engine m ob = Some \<lparr>sol_X = [0, 0, 1, 0, 0], sol_Slack = []\<rparr>"

definition example_state :: lp_state where
  "example_state =
     \<lparr>optModel = \<lparr>var_lb = [], var_ub = [], constrs = []\<rparr>, objExpr = \<lparr>lconst = 0, lterms = []\<rparr>,
      constrsNum = 0, cur_sol = \<lparr>sol_X = [0, 0, 1 / 2, 1 / 2, 0], sol_Slack = []\<rparr>\<rparr>"

text \<open>
  The three-colour model of the graph with the single edge \<open>(0, 1)\<close>, anchored at vertex 0.
  At the point with vertex 1 at \<open>(1/2, 1/2)\<close> the cover constraint
  \<open>s1 + s2 + t1 + t2 \<ge> 1\<close> and the constraint \<open>t1 + t2 \<le> 1\<close> are both binding and
  pull the pair in opposite directions: the scan of the pair ends with \<open>failFlag\<close>, and
  \<^verbatim>\<open>rounding_with_binding_analysis\<close> hands the model back as it was.
\<close>

definition example_edge_model :: GRBModel where
  "example_edge_model =
     \<lparr>var_lb = [0, 0, 0, 0, 0], var_ub = [0, 0, 1, 1, 1],
      constrs = cover_constraints 0 1 @ [three_constraint 0, three_constraint 2]\<rparr>"

text \<open>
  The four-colour model of the graph with the edges \<open>(0, 1)\<close>, \<open>(0, 2)\<close>, \<open>(0, 3)\<close>
  and \<open>(1, 2)\<close>, anchored at vertex 0, and the point with vertex 1 at \<open>(1/2, 1/2)\<close>,
  vertex 2 at \<open>(1, 0)\<close> and vertex 3 at \<open>(0, 1)\<close>, with the slack of every constraint
  at that point.  Constraints 0 to 3 are those of edge \<open>(0, 1)\<close> and constraints 12 to 15
  those of edge \<open>(1, 2)\<close>; constraints 0 and 13 are binding and pull the first variable of
  vertex 1 in opposite directions.
\<close>

definition example_direction_graph :: graph where
  "example_direction_graph =
     \<lparr>numVertices = 4, edges = [(0, 1, 1), (0, 2, 1), (0, 3, 1), (1, 2, 1)]\<rparr>"

definition example_direction_model :: GRBModel where
  "example_direction_model =
     \<lparr>var_lb = [0, 0, 0, 0, 0, 0, 0, 0, 0, 0, 0, 0],
      var_ub = [0, 0, 1, 1, 1, 1, 1, 1, 1, 1, 1, 1],
      constrs = cover_constraints 0 1 @ cover_constraints 0 2 @ cover_constraints 0 3 @
                cover_constraints 1 2\<rparr>"

definition example_direction_solution :: solution where
  "example_direction_solution =
     \<lparr>sol_X = [0, 0, 1 / 2, 1 / 2, 1, 0, 0, 1, 0, 0, 0, 0],
      sol_Slack = [0, - 1, - 1, - 2, 0, 0, - 2, - 2, 0, - 2, 0, - 2, - 1, 0, - 2, - 1]\<rparr>"

section \<open>Properties of the model builder\<close>

lemma add_edge_constraints_set:
  "add_edge_constraints es cs k = Inr (cs', k') \<Longrightarrow>
     set cs' = set cs \<union> (\<Union>e\<in>set es. set (cover_constraints (source e) (target e)))"
  by (induction es arbitrary: cs k) (auto split: if_splits)

lemma set_optimize_model_covers:
  assumes "set_optimize_model color_num g k0 = Inr (m, ob, k)" and "e \<in> set (edges g)"
  shows "set (cover_constraints (source e) (target e)) \<subseteq> set (constrs m)"
proof -
  from assms(1) obtain cs k1 where a: "add_edge_constraints (edges g) [] k0 = Inr (cs, k1)"
    and m: "set cs \<subseteq> set (constrs m)"
    by (auto simp: set_optimize_model_def Let_def split: sum.splits prod.splits)
  from add_edge_constraints_set[OF a] assms(2) m show ?thesis by auto
qed

lemma cover_equal_codes:
  assumes "X ! (2 * s) \<in> {0, 1}" "X ! (2 * s + 1) \<in> {0, 1}"
    and "X ! (2 * t) = X ! (2 * s)" "X ! (2 * t + 1) = X ! (2 * s + 1)"
  shows "\<exists>c \<in> set (cover_constraints s t). eval_expr X (lhs c) = 0 \<and> \<not> satisfied X c"
  using assms by (auto simp: cover_constraints_def Let_def eval_expr_def satisfied_def)

text \<open>
  Claim C9.  After \<^verbatim>\<open>set_optimize_model\<close> has built the model, take any edge of the graph
  and any assignment in which the four colour bits of its endpoints are 0 or 1 and the two
  endpoints carry the same 2-bit code.  Then one of the four cover constraints emitted for
  that edge is in the model, its left-hand side evaluates to 0, and it is violated.
\<close>

theorem C9_cover_constraint_violated:
  assumes "set_optimize_model color_num g k0 = Inr (m, ob, k)" and "e \<in> set (edges g)"
    and "X ! (2 * source e) \<in> {0, 1}" "X ! (2 * source e + 1) \<in> {0, 1}"
    and "X ! (2 * target e) = X ! (2 * source e)" "X ! (2 * target e + 1) = X ! (2 * source e + 1)"
  shows "\<exists>c \<in> set (cover_constraints (source e) (target e)).
           c \<in> set (constrs m) \<and> eval_expr X (lhs c) = 0 \<and> \<not> satisfied X c"
  using cover_equal_codes[OF assms(3-6)] set_optimize_model_covers[OF assms(1,2)] by blast

theorem C9_cover_constraint_violated_witness:
  "\<exists>m ob k. set_optimize_model THREE \<lparr>numVertices = 2, edges = [(0, 1, 1)]\<rparr> 0 = Inr (m, ob, k) \<and>
     (\<exists>c \<in> set (cover_constraints 0 1).
        c \<in> set (constrs m) \<and> eval_expr [1, 0, 1, 0, 0] (lhs c) = 0 \<and> \<not> satisfied [1, 0, 1, 0, 0] c)"
proof -
  obtain m ob k where s: "set_optimize_model THREE \<lparr>numVertices = 2, edges = [(0, 1, 1)]\<rparr> 0 = Inr (m, ob, k)"
    by (simp add: set_optimize_model_def edge_weight_def Let_def)
  have e: "(0, 1, 1) \<in> set (edges \<lparr>numVertices = 2, edges = [(0, 1, 1)]\<rparr>)" by simp
  from C9_cover_constraint_violated[OF s e, of "[1, 0, 1, 0, 0]"] s show ?thesis
    by (simp add: source_def target_def)
qed

section \<open>Properties of the objective perturbation\<close>

lemma coeff_of_append:
  "coeff_of (ob\<lparr>lterms := lterms ob @ [(a, p), (b, q)]\<rparr>) j =
     coeff_of ob j + (if p = j then a else 0) + (if q = j then b else 0)"
  by (simp add: coeff_of_def)

text \<open>The coefficient of a vertex's first bit after the loop started at an even index \<open>k\<close>.\<close>

lemma adjust_loop_coeff_first:
  "even k \<Longrightarrow>
   coeff_of (adjust_variable_pair_loop X k ob) (2 * i) =
     coeff_of ob (2 * i) +
       (if k \<le> 2 * i \<and> 2 * i < length X \<and> (\<not> is_integer (X ! (2 * i)) \<or> \<not> is_integer (X ! (2 * i + 1)))
        then (if X ! (2 * i) > X ! (2 * i + 1) then - 1 else if X ! (2 * i) < X ! (2 * i + 1) then 1 else 0)
        else 0)"
proof (induction X k ob rule: adjust_variable_pair_loop.induct)
  case (1 X k ob)
  show ?case
  proof (cases "k < length X")
    case False
    then show ?thesis by (subst adjust_variable_pair_loop.simps) auto
  next
    case True
    have ev: "even (k + 2)" using "1.prems" by simp
    have ne: "k + 1 \<noteq> 2 * i" using "1.prems" by presburger
    have le: "k + 2 \<le> 2 * i \<longleftrightarrow> k \<le> 2 * i \<and> k \<noteq> 2 * i" using "1.prems" by presburger
    show ?thesis
      apply (subst adjust_variable_pair_loop.simps)
      using True ne le "1.IH"[OF True refl refl refl ev]
      by (auto simp: Let_def coeff_of_append)
  qed
qed

text \<open>The same for the second bit.\<close>

lemma adjust_loop_coeff_second:
  "even k \<Longrightarrow>
   coeff_of (adjust_variable_pair_loop X k ob) (2 * i + 1) =
     coeff_of ob (2 * i + 1) +
       (if k \<le> 2 * i \<and> 2 * i < length X \<and> (\<not> is_integer (X ! (2 * i)) \<or> \<not> is_integer (X ! (2 * i + 1)))
        then (if X ! (2 * i) > X ! (2 * i + 1) then 1 else if X ! (2 * i) < X ! (2 * i + 1) then - 1 else 0)
        else 0)"
proof (induction X k ob rule: adjust_variable_pair_loop.induct)
  case (1 X k ob)
  show ?case
  proof (cases "k < length X")
    case False
    then show ?thesis by (subst adjust_variable_pair_loop.simps) auto
  next
    case True
    have ev: "even (k + 2)" using "1.prems" by simp
    have ne: "k \<noteq> 2 * i + 1" using "1.prems" by presburger
    have le: "k + 2 \<le> 2 * i \<longleftrightarrow> k \<le> 2 * i \<and> k \<noteq> 2 * i" using "1.prems" by presburger
    show ?thesis
      apply (subst adjust_variable_pair_loop.simps)
      using True ne le "1.IH"[OF True refl refl refl ev]
      by (auto simp: Let_def coeff_of_append)
  qed
qed

text \<open>
  Claim C5, as amended.  For a vertex \<open>i\<close> whose pair of values has a non-integer member,
  \<^verbatim>\<open>adjust_variable_pair_in_objective\<close> adds \<open>v2 - v1\<close> to the objective when the value of
  \<open>v1\<close> exceeds that of \<open>v2\<close>, adds \<open>v1 - v2\<close> when the value of \<open>v1\<close> is below that of
  \<open>v2\<close>, and adds nothing when the two values are equal: the coefficients of the two
  variables change by \<open>(-1, +1)\<close>, by \<open>(+1, -1)\<close> and by \<open>(0, 0)\<close>.
\<close>

theorem C5_pair_direction_term:
  assumes "2 * i + 1 < length X"
    and "\<not> is_integer (X ! (2 * i)) \<or> \<not> is_integer (X ! (2 * i + 1))"
  shows "coeff_of (adjust_variable_pair_in_objective X ob) (2 * i) =
           coeff_of ob (2 * i) +
             (if X ! (2 * i) > X ! (2 * i + 1) then - 1 else if X ! (2 * i) < X ! (2 * i + 1) then 1 else 0) \<and>
         coeff_of (adjust_variable_pair_in_objective X ob) (2 * i + 1) =
           coeff_of ob (2 * i + 1) +
             (if X ! (2 * i) > X ! (2 * i + 1) then 1 else if X ! (2 * i) < X ! (2 * i + 1) then - 1 else 0)"
  using assms adjust_loop_coeff_first[of 0 X ob i] adjust_loop_coeff_second[of 0 X ob i]
  by (simp add: adjust_variable_pair_in_objective_def)

theorem C5_pair_direction_term_witness:
  "2 * 1 + 1 < length [1 / 2, 1 / 2, 1 / 4, 3 / 4 :: real] \<and>
   coeff_of (adjust_variable_pair_in_objective [1 / 2, 1 / 2, 1 / 4, 3 / 4] \<lparr>lconst = 0, lterms = []\<rparr>) 2 = 1 \<and>
   coeff_of (adjust_variable_pair_in_objective [1 / 2, 1 / 2, 1 / 4, 3 / 4] \<lparr>lconst = 0, lterms = []\<rparr>) 3 = - 1"
proof -
  have l: "2 * 1 + 1 < length [1 / 2, 1 / 2, 1 / 4, 3 / 4 :: real]" by simp
  have n: "\<not> is_integer ([1 / 2, 1 / 2, 1 / 4, 3 / 4] ! (2 * 1)) \<or>
           \<not> is_integer ([1 / 2, 1 / 2, 1 / 4, 3 / 4] ! (2 * 1 + 1))"
    by (simp add: is_integer_def)
  from C5_pair_direction_term[OF l n, of "\<lparr>lconst = 0, lterms = []\<rparr>"] show ?thesis
    by (simp add: coeff_of_def)
qed

text \<open>
  Claim C5 as stated fails when the two values are equal: for one vertex with both values
  \<open>1/2\<close> (a non-integer pair) the objective is returned as it was, so the coefficient of
  \<open>v1\<close> has not grown by 1 as the term \<open>v1 - v2\<close> would make it.
\<close>

theorem C5_equal_values_counterexample:
  "\<not> is_integer (1 / 2) \<and>
   adjust_variable_pair_in_objective [1 / 2, 1 / 2] \<lparr>lconst = 0, lterms = []\<rparr> = \<lparr>lconst = 0, lterms = []\<rparr> \<and>
   coeff_of (adjust_variable_pair_in_objective [1 / 2, 1 / 2] \<lparr>lconst = 0, lterms = []\<rparr>) 0 \<noteq>
     coeff_of \<lparr>lconst = 0, lterms = []\<rparr> 0 + 1"
  by (simp add: adjust_variable_pair_in_objective_def adjust_variable_pair_loop.simps is_integer_def
      coeff_of_def)

section \<open>Properties of the odd-cycle search\<close>

lemma adjacent_vertices_wf:
  assumes "wf_graph g" "no_self_loops g" "u \<in> set (adjacent_vertices cv g)"
  shows "u < numVertices g \<and> u \<noteq> cv"
  using assms
  by (auto simp: wf_graph_def no_self_loops_def adjacent_vertices_def list_all_iff split: if_splits)

lemma first_unseen_Inr:
  "\<forall>u \<in> set us. u < length d \<Longrightarrow> \<exists>r. first_unseen d us = Inr r"
  by (induction us) auto

lemma detect_cycles_none:
  assumes "dfs_inv g v s" "cv \<in> set (vVertexStack s)"
    and "\<forall>u \<in> set us. u < numVertices g \<and> u \<noteq> cv"
  shows "detect_cycles v cv us s = Inr s"
  using assms(3)
proof (induction us)
  case Nil
  show ?case by simp
next
  case (Cons u us)
  from assms(1,2) have cv: "cv < numVertices g" "cv \<noteq> v \<Longrightarrow> vNodeDistColor s ! cv = 1"
    by (auto simp: dfs_inv_def)
  from Cons.prems have u: "u < numVertices g" "u \<noteq> cv" by auto
  have "\<not> (vNodeVisited s ! u \<and> vNodeDistColor s ! u = vNodeDistColor s ! cv)"
  proof
    assume a: "vNodeVisited s ! u \<and> vNodeDistColor s ! u = vNodeDistColor s ! cv"
    with assms(1) u have "u = v" by (auto simp: dfs_inv_def)
    with a assms(1) u cv show False by (auto simp: dfs_inv_def)
  qed
  with Cons assms(1) u cv show ?case by (auto simp: dfs_inv_def)
qed

lemma visited_clear:
  "\<forall>u < n. vis ! u \<longrightarrow> u = v \<Longrightarrow> cv < length vis \<Longrightarrow>
     \<forall>u < n. (vis[cv := False]) ! u \<longrightarrow> u = v"
  by (simp add: nth_list_update)

lemma dfs_inv_pop:
  assumes "dfs_inv g v s"
  shows "dfs_inv g v (s\<lparr>vVertexStack := butlast (vVertexStack s),
                       vNodeVisited := (vNodeVisited s)[cv := False]\<rparr>)"
proof (cases "cv < length (vNodeVisited s)")
  case True
  from assms have "\<forall>u < numVertices g. vNodeVisited s ! u \<longrightarrow> u = v" by (simp add: dfs_inv_def)
  from visited_clear[OF this True] assms show ?thesis
    by (simp add: dfs_inv_def) (meson in_set_butlastD)
next
  case False
  with assms show ?thesis
    by (simp add: dfs_inv_def) (meson in_set_butlastD)
qed

lemma dfs_inv_push:
  assumes inv: "dfs_inv g v s" and u: "u < length (vNodeDistColor s)" "vNodeDistColor s ! u = - 1"
  shows "dfs_inv g v (s\<lparr>vNodeDistColor := ((vNodeDistColor s)[u := a])[u := 1],
                 vVertexStack := vVertexStack s @ [u]\<rparr>)"
proof -
  let ?d = "vNodeDistColor s"
  from inv have len: "length ?d = numVertices g" and dv0: "?d ! v = 0"
    and stk: "\<forall>x \<in> set (vVertexStack s). x < numVertices g \<and> (x \<noteq> v \<longrightarrow> ?d ! x = 1)"
    and rest: "length (vNodeVisited s) = numVertices g" "v < numVertices g"
      "\<forall>u < numVertices g. vNodeVisited s ! u \<longrightarrow> u = v" "vOddCyle s = []"
    by (simp_all add: dfs_inv_def)
  from u(2) dv0 have uv: "u \<noteq> v" by auto
  have notin: "x \<noteq> u" if "x \<in> set (vVertexStack s)" for x
  proof
    assume "x = u"
    with that stk u(2) uv have "(- 1 :: int) = 1" by auto
    then show False by simp
  qed
  have d1: "(?d[u := a])[u := 1] = ?d[u := 1]" by simp
  have l: "length (?d[u := 1]) = numVertices g" using len by simp
  have dv: "?d[u := 1] ! v = 0" using dv0 uv by simp
  have un: "u < numVertices g" using len u(1) by simp
  have st: "\<forall>x \<in> set (vVertexStack s @ [u]). x < numVertices g \<and> (x \<noteq> v \<longrightarrow> ?d[u := 1] ! x = 1)"
  proof
    fix x assume x: "x \<in> set (vVertexStack s @ [u])"
    show "x < numVertices g \<and> (x \<noteq> v \<longrightarrow> ?d[u := 1] ! x = 1)"
    proof (cases "x = u")
      case True
      with un u(1) show ?thesis by simp
    next
      case False
      with x have xs: "x \<in> set (vVertexStack s)" by simp
      from stk xs have "x < numVertices g \<and> (x \<noteq> v \<longrightarrow> ?d ! x = 1)" by blast
      with False show ?thesis by simp
    qed
  qed
  show ?thesis
    unfolding dfs_inv_def d1 using l dv st rest by simp
qed

lemma dfs_step_inv:
  assumes wf: "wf_graph g" and nsl: "no_self_loops g"
    and inv: "dfs_inv g v s" and ne: "vVertexStack s \<noteq> []"
  shows "\<exists>s'. dfs_step g v s = Inr s' \<and> dfs_inv g v s'"
proof -
  let ?cv = "last (vVertexStack s)"
  let ?d = "vNodeDistColor s"
  from inv have len: "length ?d = numVertices g"
    and stk: "\<forall>x \<in> set (vVertexStack s). x < numVertices g \<and> (x \<noteq> v \<longrightarrow> ?d ! x = 1)"
    by (simp_all add: dfs_inv_def)
  from ne have cvin: "?cv \<in> set (vVertexStack s)" by simp
  with stk len have cvn: "?cv < length ?d" by simp
  have adj: "\<forall>u \<in> set (adjacent_vertices ?cv g). u < numVertices g \<and> u \<noteq> ?cv"
    using adjacent_vertices_wf[OF wf nsl] by blast
  with len have "\<forall>u \<in> set (adjacent_vertices ?cv g). u < length ?d" by simp
  from first_unseen_Inr[OF this] obtain r where r: "first_unseen ?d (adjacent_vertices ?cv g) = Inr r" ..
  show ?thesis
  proof (cases r)
    case None
    from detect_cycles_none[OF inv cvin adj]
    have d: "detect_cycles v ?cv (adjacent_vertices ?cv g) s = Inr s" .
    have st: "dfs_step g v s = Inr (s\<lparr>vVertexStack := butlast (vVertexStack s),
                       vNodeVisited := (vNodeVisited s)[?cv := False]\<rparr>)"
      using cvn r None d by (simp add: dfs_step_def Let_def)
    from dfs_inv_pop[OF inv, of ?cv] st show ?thesis by blast
  next
    case (Some u)
    from first_unseen_Some[of ?d "adjacent_vertices ?cv g" u] r Some
    have u: "u < length ?d" "?d ! u = - 1" by auto
    have st: "dfs_step g v s = Inr (s\<lparr>vNodeDistColor := (?d[u := 1 - ?d ! ?cv])[u := 1],
                 vVertexStack := vVertexStack s @ [u]\<rparr>)"
      using cvn r Some by (simp add: dfs_step_def Let_def)
    from dfs_inv_push[OF inv u, of "1 - ?d ! ?cv"] st show ?thesis by blast
  qed
qed

lemma dfs_loop_inv:
  "wf_graph g \<Longrightarrow> no_self_loops g \<Longrightarrow> dfs_inv g v s \<Longrightarrow>
     \<exists>s'. dfs_loop g v s = Inr s' \<and> vOddCyle s' = []"
proof (induction g v s rule: dfs_loop.induct)
  case (1 g v s)
  show ?case
  proof (cases "vVertexStack s = []")
    case True
    with "1.prems" show ?thesis by (subst dfs_loop.simps) (simp add: dfs_inv_def)
  next
    case False
    from dfs_step_inv[OF "1.prems" False] obtain s1
      where s1: "dfs_step g v s = Inr s1" "dfs_inv g v s1" by blast
    from "1.IH"[OF False s1(1) "1.prems"(1,2) s1(2)] False s1(1) show ?thesis
      by (subst dfs_loop.simps) simp
  qed
qed

lemma dfs_init_inv: "v < numVertices g \<Longrightarrow> dfs_inv g v (dfs_init g v)"
  by (auto simp: dfs_inv_def dfs_init_def nth_list_update)

lemma get_odd_cycles_empty:
  assumes "wf_graph g" "no_self_loops g" "v < numVertices g"
  shows "get_odd_cycles g v = Inr []"
  using dfs_loop_inv[OF assms(1,2) dfs_init_inv[OF assms(3)]] assms(3)
  by (auto simp: get_odd_cycles_def)

lemma add_odd_cycle_loop_unchanged:
  assumes "wf_graph g" "no_self_loops g"
  shows "\<forall>v \<in> set vs. v < numVertices g \<Longrightarrow> add_odd_cycle_loop g vs cs k = Inr (cs, k)"
  by (induction vs) (simp_all add: get_odd_cycles_empty[OF assms])

lemma add_odd_cycle_constraints_unchanged:
  assumes "wf_graph g" "no_self_loops g"
  shows "add_odd_cycle_constraints g (2 * numVertices g) m k = Inr (m, k)"
proof -
  have "(2 * numVertices g + 1) div 2 = numVertices g" by simp
  then have "add_odd_cycle_loop g [0 ..< (2 * numVertices g + 1) div 2] (constrs m) k =
      Inr (constrs m, k)"
    using add_odd_cycle_loop_unchanged[OF assms, of "[0 ..< numVertices g]"] by simp
  then show ?thesis by (simp add: add_odd_cycle_constraints_def)
qed

text \<open>
  Claim C2.  On a well-formed graph without self-loops, \<^verbatim>\<open>get_odd_cycles\<close> returns with
  an empty list of cycles for every root, and \<^verbatim>\<open>add_odd_cycle_constraints\<close> returns the
  model and the constraint counter as it received them.
\<close>

theorem C2_no_odd_cycle_found:
  assumes "wf_graph g" "no_self_loops g"
  shows "(\<forall>v < numVertices g. get_odd_cycles g v = Inr []) \<and>
         add_odd_cycle_constraints g (2 * numVertices g) m k = Inr (m, k)"
  using get_odd_cycles_empty[OF assms] add_odd_cycle_constraints_unchanged[OF assms] by simp

theorem C2_no_odd_cycle_found_witness:
  "wf_graph \<lparr>numVertices = 3, edges = [(0, 1, 1), (1, 2, 1), (0, 2, 1)]\<rparr> \<and>
   no_self_loops \<lparr>numVertices = 3, edges = [(0, 1, 1), (1, 2, 1), (0, 2, 1)]\<rparr> \<and>
   get_odd_cycles \<lparr>numVertices = 3, edges = [(0, 1, 1), (1, 2, 1), (0, 2, 1)]\<rparr> 0 = Inr [] \<and>
   add_odd_cycle_constraints \<lparr>numVertices = 3, edges = [(0, 1, 1), (1, 2, 1), (0, 2, 1)]\<rparr> 6
     \<lparr>var_lb = [], var_ub = [], constrs = []\<rparr> 0 = Inr (\<lparr>var_lb = [], var_ub = [], constrs = []\<rparr>, 0)"
proof -
  let ?g = "\<lparr>numVertices = 3, edges = [(0, 1, 1), (1, 2, 1), (0, 2, 1)]\<rparr>"
  have w: "wf_graph ?g"
    by (simp add: wf_graph_def source_def target_def)
  have n: "no_self_loops ?g"
    by (simp add: no_self_loops_def source_def target_def)
  have six: "2 * numVertices ?g = 6" by simp
  have z: "0 < numVertices ?g" by simp
  note c = C2_no_odd_cycle_found[OF w n, of "\<lparr>var_lb = [], var_ub = [], constrs = []\<rparr>" 0]
  from c have a: "get_odd_cycles ?g 0 = Inr []" using z by blast
  from c have b: "add_odd_cycle_constraints ?g 6 \<lparr>var_lb = [], var_ub = [], constrs = []\<rparr> 0 =
      Inr (\<lparr>var_lb = [], var_ub = [], constrs = []\<rparr>, 0)"
    unfolding six by blast
  from w n a b show ?thesis by blast
qed

text \<open>
  Claim C3.  The graph is the path 0 - 1 - 2 and the root is 0.  The first iteration pushes
  vertex 1; in the second the stack top is 1, with distance value 1, and its neighbour 2 is
  unseen.  Vertex 2 is pushed, but its distance value becomes 1, which is the top's own
  value and not \<open>1 - 1 = 0\<close>, and its visited flag stays false.
\<close>

theorem C3_unseen_neighbor_step:
  "dfs_step \<lparr>numVertices = 3, edges = [(0, 1, 1), (1, 2, 1)]\<rparr> 0
     (dfs_init \<lparr>numVertices = 3, edges = [(0, 1, 1), (1, 2, 1)]\<rparr> 0) =
   Inr \<lparr>vNodeDistColor = [0, 1, - 1], vNodeVisited = [True, False, False],
        vInCycle = [False, False, False], vVertexStack = [0, 1], vOddCyle = []\<rparr> \<and>
   dfs_step \<lparr>numVertices = 3, edges = [(0, 1, 1), (1, 2, 1)]\<rparr> 0
     \<lparr>vNodeDistColor = [0, 1, - 1], vNodeVisited = [True, False, False],
      vInCycle = [False, False, False], vVertexStack = [0, 1], vOddCyle = []\<rparr> =
   Inr \<lparr>vNodeDistColor = [0, 1, 1], vNodeVisited = [True, False, False],
        vInCycle = [False, False, False], vVertexStack = [0, 1, 2], vOddCyle = []\<rparr>"
  by (simp add: dfs_step_def dfs_init_def adjacent_vertices_def source_def target_def
      numeral_3_eq_3)

section \<open>Properties of the binding-analysis rounder\<close>

lemma check_candidate_other:
  "(b1, b2) \<noteq> b \<Longrightarrow> fst (check_candidate value1 value2 cur sns b vc) b1 b2 = fst vc b1 b2"
  by (cases b) (auto simp: check_candidate_def Let_def)

lemma check_candidate_self:
  "fst (check_candidate value1 value2 cur sns (b1, b2) vc) b1 b2 \<longleftrightarrow>
     fst vc b1 b2 \<and>
     \<not> invalidated sns (delta_of (coeff (fst cur)) (coeff (snd cur)) value1 value2 b1 b2)"
  by (auto simp: check_candidate_def Let_def invalidated_def)

lemma check_all_candidates_valid:
  assumes "b1 < 2" "b2 < 2"
  shows "fst (check_all_candidates value1 value2 cur sns vc) b1 b2 \<longleftrightarrow>
     fst vc b1 b2 \<and>
     \<not> invalidated sns (delta_of (coeff (fst cur)) (coeff (snd cur)) value1 value2 b1 b2)"
proof -
  from assms have "(b1, b2) = (0, 0) \<or> (b1, b2) = (0, 1) \<or> (b1, b2) = (1, 0) \<or> (b1, b2) = (1, 1)"
    by auto
  then show ?thesis
    unfolding check_all_candidates_def candidates_def
    by (elim disjE) (simp_all add: check_candidate_other check_candidate_self del: One_nat_def)
qed


text \<open>
  Claim C6, as amended.  The pair of variables \<open>i\<close>, \<open>i + 1\<close> has both values exactly
  \<open>1/2\<close>, and \<open>(b1, b2)\<close> is one of the four candidates.  A constraint of a column whose
  slack is not 0 is passed over with the scan state as it was.  A constraint whose slack is
  0 and that fails the direction test against the previous binding constraint, on either
  variable, ends the scan of the column with \<open>failFlag\<close> set and every candidate as it
  was.  For a constraint whose slack is 0 and that passes the direction test, the candidate
  is valid afterwards exactly when it was valid before and
  \<open>delta = a1 * (b1 - 1/2) + a2 * (b2 - 1/2)\<close> is neither negative under sense \<^verbatim>\<open>>\<close>
  nor positive under sense \<^verbatim>\<open><\<close>, where \<open>a1\<close>, \<open>a2\<close> are the constraint's coefficients
  on the two variables.
\<close>

theorem C6_binding_constraint_check:
  assumes "sol_X sol ! i = 1 / 2" "sol_X sol ! (i + 1) = 1 / 2" and "b1 < 2" "b2 < 2"
  shows
    "(sol_Slack sol ! c \<noteq> 0 \<longrightarrow> scan_constr m sol i c st = Continue st) \<and>
     (sol_Slack sol ! c = 0 \<and>
      \<not> (same_direction \<lparr>coeff = getCoeff (constrs m ! c) i, sense = Sense (constrs m ! c)\<rparr>
            (fst (prevConstrInfo st)) \<and>
          same_direction \<lparr>coeff = getCoeff (constrs m ! c) (i + 1), sense = Sense (constrs m ! c)\<rparr>
            (snd (prevConstrInfo st))) \<longrightarrow>
      (\<exists>st'. scan_constr m sol i c st = Break st' \<and> failFlag st' \<and>
             mValidColorBits st' = mValidColorBits st \<and> invalidCount st' = invalidCount st)) \<and>
     (sol_Slack sol ! c = 0 \<and>
      same_direction \<lparr>coeff = getCoeff (constrs m ! c) i, sense = Sense (constrs m ! c)\<rparr>
        (fst (prevConstrInfo st)) \<and>
      same_direction \<lparr>coeff = getCoeff (constrs m ! c) (i + 1), sense = Sense (constrs m ! c)\<rparr>
        (snd (prevConstrInfo st)) \<longrightarrow>
      (mValidColorBits (step_state (scan_constr m sol i c st)) b1 b2 \<longleftrightarrow>
         mValidColorBits st b1 b2 \<and>
         \<not> ((Sense (constrs m ! c) = CHR ''>'' \<and>
              getCoeff (constrs m ! c) i * (real b1 - 1 / 2) +
              getCoeff (constrs m ! c) (i + 1) * (real b2 - 1 / 2) < 0) \<or>
             (Sense (constrs m ! c) = CHR ''<'' \<and>
              getCoeff (constrs m ! c) i * (real b1 - 1 / 2) +
              getCoeff (constrs m ! c) (i + 1) * (real b2 - 1 / 2) > 0))))"
proof (intro conjI impI)
  assume "sol_Slack sol ! c \<noteq> 0"
  then show "scan_constr m sol i c st = Continue st" by (simp add: scan_constr_def)
next
  assume "sol_Slack sol ! c = 0 \<and>
      \<not> (same_direction \<lparr>coeff = getCoeff (constrs m ! c) i, sense = Sense (constrs m ! c)\<rparr>
            (fst (prevConstrInfo st)) \<and>
          same_direction \<lparr>coeff = getCoeff (constrs m ! c) (i + 1), sense = Sense (constrs m ! c)\<rparr>
            (snd (prevConstrInfo st)))"
  then show "\<exists>st'. scan_constr m sol i c st = Break st' \<and> failFlag st' \<and>
             mValidColorBits st' = mValidColorBits st \<and> invalidCount st' = invalidCount st"
    by (auto simp: scan_constr_def Let_def)
next
  let ?k = "constrs m ! c"
  let ?cur = "(\<lparr>coeff = getCoeff ?k i, sense = Sense ?k\<rparr>, \<lparr>coeff = getCoeff ?k (i + 1), sense = Sense ?k\<rparr>)"
  let ?vc = "check_all_candidates (1 / 2) (1 / 2) ?cur (Sense ?k) (mValidColorBits st, invalidCount st)"
  assume a: "sol_Slack sol ! c = 0 \<and>
      same_direction \<lparr>coeff = getCoeff ?k i, sense = Sense ?k\<rparr> (fst (prevConstrInfo st)) \<and>
      same_direction \<lparr>coeff = getCoeff ?k (i + 1), sense = Sense ?k\<rparr> (snd (prevConstrInfo st))"
  then have "mValidColorBits (step_state (scan_constr m sol i c st)) =
      fst (check_all_candidates (sol_X sol ! i) (sol_X sol ! (i + 1)) ?cur (Sense ?k)
             (mValidColorBits st, invalidCount st))"
    by (simp add: scan_constr_def Let_def)
  then have "mValidColorBits (step_state (scan_constr m sol i c st)) = fst ?vc"
    by (simp only: assms(1,2))
  then show "mValidColorBits (step_state (scan_constr m sol i c st)) b1 b2 \<longleftrightarrow>
         mValidColorBits st b1 b2 \<and>
         \<not> ((Sense ?k = CHR ''>'' \<and>
              getCoeff ?k i * (real b1 - 1 / 2) + getCoeff ?k (i + 1) * (real b2 - 1 / 2) < 0) \<or>
             (Sense ?k = CHR ''<'' \<and>
              getCoeff ?k i * (real b1 - 1 / 2) + getCoeff ?k (i + 1) * (real b2 - 1 / 2) > 0))"
    using check_all_candidates_valid[OF assms(3,4), of "1 / 2" "1 / 2" ?cur "Sense ?k"
        "(mValidColorBits st, invalidCount st)"]
    by (simp add: invalidated_def delta_of_def)
qed

lemma num_invalid_4:
  "num_invalid valid = 4 \<longleftrightarrow> \<not> valid 0 0 \<and> \<not> valid 0 1 \<and> \<not> valid 1 0 \<and> \<not> valid 1 1"
  by (simp add: num_invalid_def candidates_def)

lemma check_candidate_count:
  assumes "b \<in> set candidates" "snd vc = num_invalid (fst vc)"
  shows "snd (check_candidate value1 value2 cur sns b vc) =
         num_invalid (fst (check_candidate value1 value2 cur sns b vc))"
proof -
  from assms(1) have "b = (0, 0) \<or> b = (0, 1) \<or> b = (1, 0) \<or> b = (1, 1)"
    by (simp add: candidates_def)
  then show ?thesis
    using assms(2)
    by (elim disjE) (simp_all add: check_candidate_def Let_def num_invalid_def candidates_def)
qed

lemma check_all_candidates_count:
  assumes "snd vc = num_invalid (fst vc)"
  shows "snd (check_all_candidates value1 value2 cur sns vc) =
         num_invalid (fst (check_all_candidates value1 value2 cur sns vc))"
proof -
  have "set bs \<subseteq> set candidates \<Longrightarrow> snd vc = num_invalid (fst vc) \<Longrightarrow>
      snd (fold (check_candidate value1 value2 cur sns) bs vc) =
      num_invalid (fst (fold (check_candidate value1 value2 cur sns) bs vc))" for bs vc
    by (induction bs arbitrary: vc) (simp_all add: check_candidate_count)
  from this[of candidates vc] assms show ?thesis by (simp add: check_all_candidates_def)
qed

lemma scan_constr_inv:
  assumes "scan_inv st"
  shows "scan_inv (step_state (scan_constr m sol i c st))"
proof -
  let ?k = "constrs m ! c"
  let ?cur = "(\<lparr>coeff = getCoeff ?k i, sense = Sense ?k\<rparr>, \<lparr>coeff = getCoeff ?k (i + 1), sense = Sense ?k\<rparr>)"
  let ?vc = "check_all_candidates (sol_X sol ! i) (sol_X sol ! (i + 1)) ?cur (Sense ?k)
               (mValidColorBits st, invalidCount st)"
  from assms have "snd (mValidColorBits st, invalidCount st) = num_invalid (fst (mValidColorBits st, invalidCount st))"
    by (simp add: scan_inv_def)
  from check_all_candidates_count[OF this] have c: "snd ?vc = num_invalid (fst ?vc)" .
  show ?thesis
    using assms c by (simp add: scan_constr_def Let_def scan_inv_def)
qed

lemma scan_column_inv:
  "scan_inv st \<Longrightarrow> scan_inv (scan_column m sol i col st)"
proof (induction col arbitrary: st)
  case Nil
  then show ?case by simp
next
  case (Cons c col)
  from scan_constr_inv[OF Cons.prems, of m sol i c] Cons.IH show ?case
    by (cases "scan_constr m sol i c st") simp_all
qed

lemma scan_pair_inv_FOUR: "scan_inv (scan_pair FOUR m sol i)"
proof -
  have "scan_inv (scan_init FOUR)"
    by (simp add: scan_inv_def scan_init_def num_invalid_def candidates_def)
  then show ?thesis
    by (simp add: scan_pair_def Let_def scan_column_inv)
qed


text \<open>
  The direction test.  For non-zero coefficients and the senses \<^verbatim>\<open>>\<close> and \<^verbatim>\<open><\<close>,
  \<^verbatim>\<open>same_direction\<close> compares the directions of the two constraints.  So a scan of a
  column that does not end with \<open>failFlag\<close> has met binding constraints of one direction
  only.
\<close>

lemma same_direction_up:
  assumes "coeff a \<noteq> 0" "coeff b \<noteq> 0" "sense_ok (sense a)" "sense_ok (sense b)"
  shows "same_direction a b \<longleftrightarrow> up_dir a = up_dir b"
  using assms by (auto simp: same_direction_def up_dir_def sense_ok_def)

lemma scan_constr_skip:
  "sol_Slack sol ! c \<noteq> 0 \<Longrightarrow> scan_constr m sol i c st = Continue st"
  by (simp add: scan_constr_def)

lemma scan_constr_binding:
  assumes "sol_Slack sol ! c = 0"
  shows "(\<exists>st'. scan_constr m sol i c st = Break st' \<and> failFlag st') \<or>
         (\<exists>st'. scan_constr m sol i c st = Continue st' \<and>
                prevConstrInfo st' = pair_info m i c \<and>
                same_direction (fst (pair_info m i c)) (fst (prevConstrInfo st)) \<and>
                same_direction (snd (pair_info m i c)) (snd (prevConstrInfo st)))"
  using assms by (simp add: scan_constr_def pair_info_def Let_def)

lemma scan_column_Break:
  "scan_constr m sol i c st = Break st' \<Longrightarrow> scan_column m sol i (c # col) st = st'"
  by simp

lemma scan_column_Continue:
  "scan_constr m sol i c st = Continue st' \<Longrightarrow>
     scan_column m sol i (c # col) st = scan_column m sol i col st'"
  by simp


lemma scan_constr_binding_sel:
  assumes "sol_Slack sol ! c = 0" and "p = fst \<or> p = snd"
  shows "(\<exists>st'. scan_constr m sol i c st = Break st' \<and> failFlag st') \<or>
         (\<exists>st'. scan_constr m sol i c st = Continue st' \<and>
                prevConstrInfo st' = pair_info m i c \<and>
                same_direction (p (pair_info m i c)) (p (prevConstrInfo st)))"
  using scan_constr_binding[OF assms(1), of m i st] assms(2) by auto

lemma direction_chain:
  assumes sel: "p = fst \<or> p = snd"
    and col: "\<forall>c \<in> set L. coeff (p (pair_info m i c)) \<noteq> 0 \<and> sense_ok (Sense (constrs m ! c))"
  shows "coeff (p (prevConstrInfo st)) \<noteq> 0 \<Longrightarrow> sense_ok (sense (p (prevConstrInfo st))) \<Longrightarrow>
     \<exists>c \<in> set L. sol_Slack sol ! c = 0 \<and>
        up_dir (p (pair_info m i c)) \<noteq> up_dir (p (prevConstrInfo st)) \<Longrightarrow>
     failFlag (scan_column m sol i L st)"
  using col
proof (induction L arbitrary: st)
  case Nil
  then show ?case by simp
next
  case (Cons c L)
  from Cons.prems(4) have cc: "coeff (p (pair_info m i c)) \<noteq> 0" "sense_ok (Sense (constrs m ! c))"
    and colL: "\<forall>c \<in> set L. coeff (p (pair_info m i c)) \<noteq> 0 \<and> sense_ok (Sense (constrs m ! c))"
    by simp_all
  have sc: "sense (p (pair_info m i c)) = Sense (constrs m ! c)"
    using sel by (auto simp: pair_info_def)
  show ?case
  proof (cases "sol_Slack sol ! c = 0")
    case False
    with Cons.prems(3) have ex: "\<exists>c \<in> set L. sol_Slack sol ! c = 0 \<and>
        up_dir (p (pair_info m i c)) \<noteq> up_dir (p (prevConstrInfo st))" by auto
    from Cons.IH[OF Cons.prems(1,2) ex colL] scan_constr_skip[OF False, of m i st]
    show ?thesis by simp
  next
    case True
    from scan_constr_binding_sel[OF True sel, of m i st]
    show ?thesis
    proof (elim disjE exE conjE)
      fix st' assume "scan_constr m sol i c st = Break st'" "failFlag st'"
      then show ?thesis by simp
    next
      fix st' assume k: "scan_constr m sol i c st = Continue st'"
        and q: "prevConstrInfo st' = pair_info m i c"
        and d: "same_direction (p (pair_info m i c)) (p (prevConstrInfo st))"
      from d same_direction_up[OF cc(1) Cons.prems(1)] cc(2) Cons.prems(2) sc
      have e: "up_dir (p (pair_info m i c)) = up_dir (p (prevConstrInfo st))" by simp
      with Cons.prems(3) have ex: "\<exists>c' \<in> set L. sol_Slack sol ! c' = 0 \<and>
        up_dir (p (pair_info m i c')) \<noteq> up_dir (p (prevConstrInfo st'))"
        using q by auto
      have "failFlag (scan_column m sol i L st')"
        by (rule Cons.IH[OF _ _ ex colL]) (simp_all add: q cc sc)
      with k show ?thesis by simp
    qed
  qed
qed

lemma direction_pairwise:
  assumes sel: "p = fst \<or> p = snd"
    and col: "\<forall>c \<in> set L. coeff (p (pair_info m i c)) \<noteq> 0 \<and> sense_ok (Sense (constrs m ! c))"
  shows "\<exists>c \<in> set L. \<exists>c' \<in> set L. sol_Slack sol ! c = 0 \<and> sol_Slack sol ! c' = 0 \<and>
        up_dir (p (pair_info m i c)) \<noteq> up_dir (p (pair_info m i c')) \<Longrightarrow>
     failFlag (scan_column m sol i L st)"
  using col
proof (induction L arbitrary: st)
  case Nil
  then show ?case by simp
next
  case (Cons c L)
  from Cons.prems(2) have cc: "coeff (p (pair_info m i c)) \<noteq> 0" "sense_ok (Sense (constrs m ! c))"
    and colL: "\<forall>c \<in> set L. coeff (p (pair_info m i c)) \<noteq> 0 \<and> sense_ok (Sense (constrs m ! c))"
    by simp_all
  have sc: "sense (p (pair_info m i c)) = Sense (constrs m ! c)"
    using sel by (auto simp: pair_info_def)
  show ?case
  proof (cases "sol_Slack sol ! c = 0")
    case False
    with Cons.prems(1) have ex: "\<exists>c \<in> set L. \<exists>c' \<in> set L. sol_Slack sol ! c = 0 \<and> sol_Slack sol ! c' = 0 \<and>
        up_dir (p (pair_info m i c)) \<noteq> up_dir (p (pair_info m i c'))" by auto
    from Cons.IH[OF ex colL] scan_constr_skip[OF False, of m i st]
    show ?thesis by simp
  next
    case True
    from scan_constr_binding_sel[OF True sel, of m i st]
    show ?thesis
    proof (elim disjE exE conjE)
      fix st' assume "scan_constr m sol i c st = Break st'" "failFlag st'"
      then show ?thesis by simp
    next
      fix st' assume k: "scan_constr m sol i c st = Continue st'"
        and q: "prevConstrInfo st' = pair_info m i c"
      from Cons.prems(1) have ex: "\<exists>c' \<in> set L. sol_Slack sol ! c' = 0 \<and>
        up_dir (p (pair_info m i c')) \<noteq> up_dir (p (prevConstrInfo st'))"
        unfolding q by (metis set_ConsD)
      have "failFlag (scan_column m sol i L st')"
        by (rule direction_chain[OF sel colL _ _ ex]) (simp_all add: q cc sc)
      with k show ?thesis by simp
    qed
  qed
qed

text \<open>
  A candidate that no binding constraint of a column invalidates is still valid after the
  scan of the column.
\<close>

lemma scan_constr_keeps_valid:
  assumes "b1 < 2" "b2 < 2" "mValidColorBits st b1 b2"
    and "sol_Slack sol ! c = 0 \<Longrightarrow>
       \<not> invalidated (Sense (constrs m ! c))
           (delta_of (getCoeff (constrs m ! c) i) (getCoeff (constrs m ! c) (i + 1))
              (sol_X sol ! i) (sol_X sol ! (i + 1)) b1 b2)"
  shows "mValidColorBits (step_state (scan_constr m sol i c st)) b1 b2"
proof (cases "sol_Slack sol ! c = 0")
  case False
  with assms(3) show ?thesis by (simp add: scan_constr_def)
next
  case True
  let ?k = "constrs m ! c"
  let ?cur = "(\<lparr>coeff = getCoeff ?k i, sense = Sense ?k\<rparr>, \<lparr>coeff = getCoeff ?k (i + 1), sense = Sense ?k\<rparr>)"
  have "fst (check_all_candidates (sol_X sol ! i) (sol_X sol ! (i + 1)) ?cur (Sense ?k)
          (mValidColorBits st, invalidCount st)) b1 b2"
    using check_all_candidates_valid[OF assms(1,2), of "sol_X sol ! i" "sol_X sol ! (i + 1)" ?cur
        "Sense ?k" "(mValidColorBits st, invalidCount st)"] assms(3) assms(4)[OF True]
    by simp
  with assms(3) show ?thesis
    by (simp add: scan_constr_def Let_def)
qed

lemma scan_column_keeps_valid:
  assumes "b1 < 2" "b2 < 2"
    and "\<forall>c \<in> set L. sol_Slack sol ! c = 0 \<longrightarrow>
       \<not> invalidated (Sense (constrs m ! c))
           (delta_of (getCoeff (constrs m ! c) i) (getCoeff (constrs m ! c) (i + 1))
              (sol_X sol ! i) (sol_X sol ! (i + 1)) b1 b2)"
  shows "mValidColorBits st b1 b2 \<Longrightarrow> mValidColorBits (scan_column m sol i L st) b1 b2"
  using assms(3)
proof (induction L arbitrary: st)
  case Nil
  then show ?case by simp
next
  case (Cons c L)
  have v: "mValidColorBits (step_state (scan_constr m sol i c st)) b1 b2"
    by (rule scan_constr_keeps_valid[OF assms(1,2) Cons.prems(1)]) (use Cons.prems(2) in simp)
  from Cons.prems(2) have r: "\<forall>c \<in> set L. sol_Slack sol ! c = 0 \<longrightarrow>
       \<not> invalidated (Sense (constrs m ! c))
           (delta_of (getCoeff (constrs m ! c) i) (getCoeff (constrs m ! c) (i + 1))
              (sol_X sol ! i) (sol_X sol ! (i + 1)) b1 b2)" by simp
  show ?case
  proof (cases "scan_constr m sol i c st")
    case (Continue st')
    with v Cons.IH[OF _ r, of st'] show ?thesis by simp
  next
    case (Break st')
    with v show ?thesis by simp
  qed
qed

text \<open>
  The constraint \<open>b1 + b2 \<le> 1\<close> of a pair is in both of its columns and pushes both
  variables downwards.  While it is binding and \<open>failFlag\<close> is not set, every binding
  constraint of the two columns pushes its variable downwards, and none of them invalidates
  the candidate \<open>(0, 0)\<close>.
\<close>

lemma getCol_mem:
  "c \<in> set (getCol m v) \<longleftrightarrow> c < length (constrs m) \<and> getCoeff (constrs m ! c) v \<noteq> 0"
  by (auto simp: getCol_def)

lemma down_keeps_00:
  assumes "sense_ok s"
    and "a1 \<noteq> 0 \<Longrightarrow> \<not> up_dir \<lparr>coeff = a1, sense = s\<rparr>"
    and "a2 \<noteq> 0 \<Longrightarrow> \<not> up_dir \<lparr>coeff = a2, sense = s\<rparr>"
  shows "\<not> invalidated s (delta_of a1 a2 (1 / 2) (1 / 2) 0 0)"
proof -
  have "s = CHR ''>'' \<Longrightarrow> a1 \<le> 0 \<and> a2 \<le> 0"
    using assms(2,3) by (cases "a1 = 0"; cases "a2 = 0") (auto simp: up_dir_def)
  moreover have "s = CHR ''<'' \<Longrightarrow> 0 \<le> a1 \<and> 0 \<le> a2"
    using assms(2,3) by (cases "a1 = 0"; cases "a2 = 0") (auto simp: up_dir_def)
  ultimately show ?thesis
    using assms(1) by (auto simp: invalidated_def delta_of_def sense_ok_def)
qed

lemma scan_pair_THREE_keeps_00:
  assumes vals: "sol_X sol ! i = 1 / 2" "sol_X sol ! (i + 1) = 1 / 2"
    and senses: "list_all (\<lambda>k. sense_ok (Sense k)) (constrs m)"
    and three: "cT < length (constrs m)" "constrs m ! cT = three_constraint i" "sol_Slack sol ! cT = 0"
    and nf: "\<not> failFlag (scan_pair THREE m sol i)"
  shows "mValidColorBits (scan_pair THREE m sol i) 0 0"
proof -
  let ?L0 = "getCol m i" and ?L1 = "getCol m (i + 1)"
  let ?st1 = "scan_column m sol i ?L0 (scan_init THREE)"
  have so: "sense_ok (Sense (constrs m ! c))" if "c < length (constrs m)" for c
    using senses that by (simp add: list_all_length)
  have col0: "\<forall>c \<in> set ?L0. coeff (fst (pair_info m i c)) \<noteq> 0 \<and> sense_ok (Sense (constrs m ! c))"
    by (simp add: getCol_mem pair_info_def so)
  have col1: "\<forall>c \<in> set ?L1. coeff (snd (pair_info m i c)) \<noteq> 0 \<and> sense_ok (Sense (constrs m ! c))"
    by (simp add: getCol_mem pair_info_def so)
  from nf have nf1: "\<not> failFlag ?st1"
    by (auto simp: scan_pair_def Let_def split: if_splits)
  with nf have fin: "scan_pair THREE m sol i = scan_column m sol i ?L1 ?st1"
    and nf2: "\<not> failFlag (scan_column m sol i ?L1 ?st1)"
    by (simp_all add: scan_pair_def Let_def)
  have T0: "cT \<in> set ?L0" and T1: "cT \<in> set ?L1"
    using three(1,2) by (simp_all add: getCol_mem three_constraint_def getCoeff_def)
  have Tdown: "\<not> up_dir (fst (pair_info m i cT))" "\<not> up_dir (snd (pair_info m i cT))"
    using three(2) by (simp_all add: pair_info_def up_dir_def three_constraint_def getCoeff_def)
  have down0: "\<not> up_dir (fst (pair_info m i c))" if "c \<in> set ?L0" "sol_Slack sol ! c = 0" for c
  proof
    assume "up_dir (fst (pair_info m i c))"
    with that T0 three(3) Tdown(1)
    have "\<exists>c \<in> set ?L0. \<exists>c' \<in> set ?L0. sol_Slack sol ! c = 0 \<and> sol_Slack sol ! c' = 0 \<and>
        up_dir (fst (pair_info m i c)) \<noteq> up_dir (fst (pair_info m i c'))" by blast
    from direction_pairwise[OF _ col0 this, of "scan_init THREE"] nf1 show False by simp
  qed
  have down1: "\<not> up_dir (snd (pair_info m i c))" if "c \<in> set ?L1" "sol_Slack sol ! c = 0" for c
  proof
    assume "up_dir (snd (pair_info m i c))"
    with that T1 three(3) Tdown(2)
    have "\<exists>c \<in> set ?L1. \<exists>c' \<in> set ?L1. sol_Slack sol ! c = 0 \<and> sol_Slack sol ! c' = 0 \<and>
        up_dir (snd (pair_info m i c)) \<noteq> up_dir (snd (pair_info m i c'))" by blast
    from direction_pairwise[OF _ col1 this, of ?st1] nf2 show False by simp
  qed
  have keep: "\<not> invalidated (Sense (constrs m ! c))
           (delta_of (getCoeff (constrs m ! c) i) (getCoeff (constrs m ! c) (i + 1))
              (sol_X sol ! i) (sol_X sol ! (i + 1)) 0 0)"
    if "c < length (constrs m)" "sol_Slack sol ! c = 0" for c
  proof -
    have a: "\<not> up_dir \<lparr>coeff = getCoeff (constrs m ! c) i, sense = Sense (constrs m ! c)\<rparr>"
      if "getCoeff (constrs m ! c) i \<noteq> 0"
      using down0[of c] that \<open>c < length (constrs m)\<close> \<open>sol_Slack sol ! c = 0\<close>
      by (simp add: getCol_mem pair_info_def)
    have b: "\<not> up_dir \<lparr>coeff = getCoeff (constrs m ! c) (i + 1), sense = Sense (constrs m ! c)\<rparr>"
      if "getCoeff (constrs m ! c) (i + 1) \<noteq> 0"
      using down1[of c] that \<open>c < length (constrs m)\<close> \<open>sol_Slack sol ! c = 0\<close>
      by (simp add: getCol_mem pair_info_def)
    have "\<not> invalidated (Sense (constrs m ! c))
           (delta_of (getCoeff (constrs m ! c) i) (getCoeff (constrs m ! c) (i + 1))
              (1 / 2) (1 / 2) 0 0)"
      by (rule down_keeps_00[OF so[OF that(1)]]) (erule a, erule b)
    then show ?thesis by (simp only: vals not_False_eq_True)
  qed
  have z: "(0 :: nat) < 2" by simp
  have k0: "\<forall>c \<in> set ?L0. sol_Slack sol ! c = 0 \<longrightarrow>
       \<not> invalidated (Sense (constrs m ! c))
           (delta_of (getCoeff (constrs m ! c) i) (getCoeff (constrs m ! c) (i + 1))
              (sol_X sol ! i) (sol_X sol ! (i + 1)) 0 0)"
    using keep by (simp add: getCol_mem)
  have k1: "\<forall>c \<in> set ?L1. sol_Slack sol ! c = 0 \<longrightarrow>
       \<not> invalidated (Sense (constrs m ! c))
           (delta_of (getCoeff (constrs m ! c) i) (getCoeff (constrs m ! c) (i + 1))
              (sol_X sol ! i) (sol_X sol ! (i + 1)) 0 0)"
    using keep by (simp add: getCol_mem)
  have "mValidColorBits (scan_init THREE) 0 0" by (simp add: scan_init_def)
  from scan_column_keeps_valid[OF z z k0 this]
  have "mValidColorBits ?st1 0 0" .
  from scan_column_keeps_valid[OF z z k1 this] fin show ?thesis by simp
qed

lemma all_invalid_failFlag:
  assumes vals: "sol_X sol ! i = 1 / 2" "sol_X sol ! (i + 1) = 1 / 2"
    and senses: "list_all (\<lambda>k. sense_ok (Sense k)) (constrs m)"
    and three: "color_num = THREE \<Longrightarrow>
       \<exists>c < length (constrs m). constrs m ! c = three_constraint i \<and> sol_Slack sol ! c = 0"
    and inv: "\<not> mValidColorBits (scan_pair color_num m sol i) 0 0"
      "\<not> mValidColorBits (scan_pair color_num m sol i) 0 1"
      "\<not> mValidColorBits (scan_pair color_num m sol i) 1 0"
      "\<not> mValidColorBits (scan_pair color_num m sol i) 1 1"
  shows "failFlag (scan_pair color_num m sol i)"
proof (cases color_num)
  case FOUR
  with scan_pair_inv_FOUR[of m sol i] inv show ?thesis
    by (simp add: scan_inv_def num_invalid_4)
next
  case THREE
  from three[OF THREE] obtain cT where t: "cT < length (constrs m)"
    "constrs m ! cT = three_constraint i" "sol_Slack sol ! cT = 0" by blast
  show ?thesis
  proof (rule ccontr)
    assume "\<not> failFlag (scan_pair color_num m sol i)"
    with THREE have "\<not> failFlag (scan_pair THREE m sol i)" by simp
    from scan_pair_THREE_keeps_00[OF vals senses t this] inv(1) THREE show False by simp
  qed
qed

text \<open>
  The models of the program.  Every constraint that \<^verbatim>\<open>set_optimize_model\<close> and
  \<^verbatim>\<open>add_odd_cycle_constraints\<close> add has sense \<^verbatim>\<open>>\<close> or \<^verbatim>\<open><\<close>;
  \<^verbatim>\<open>add_odd_cycle_constraints\<close> and \<^verbatim>\<open>set_anchor\<close> keep the constraints that are
  there; when three colours are asked for the model holds the constraint \<open>b1 + b2 \<le> 1\<close> of
  every vertex, and that constraint is binding wherever both values are \<open>1/2\<close>.
\<close>

lemma add_edge_constraints_senses:
  "add_edge_constraints es cs k = Inr (cs', k') \<Longrightarrow> list_all (\<lambda>c. sense_ok (Sense c)) cs \<Longrightarrow>
     list_all (\<lambda>c. sense_ok (Sense c)) cs'"
  by (induction es arbitrary: cs k)
     (auto simp: cover_constraints_def sense_ok_def Let_def split: if_splits)

lemma set_optimize_model_senses:
  assumes "set_optimize_model color_num g k0 = Inr (m, ob, k)"
  shows "list_all (\<lambda>c. sense_ok (Sense c)) (constrs m)"
proof -
  from assms obtain cs k1 where a: "add_edge_constraints (edges g) [] k0 = Inr (cs, k1)"
    and m: "constrs m = cs @ (if color_num = THREE then three_constraints (2 * numVertices g) else [])"
    by (auto simp: set_optimize_model_def Let_def split: sum.splits prod.splits)
  from add_edge_constraints_senses[OF a] have "list_all (\<lambda>c. sense_ok (Sense c)) cs" by simp
  with m show ?thesis
    by (auto simp: three_constraints_def three_constraint_def sense_ok_def list_all_iff)
qed

lemma add_odd_cycle_loop_senses:
  "add_odd_cycle_loop g vs cs k = Inr (cs', k') \<Longrightarrow> list_all (\<lambda>c. sense_ok (Sense c)) cs \<Longrightarrow>
     list_all (\<lambda>c. sense_ok (Sense c)) cs' \<and> set cs \<subseteq> set cs'"
proof (induction vs arbitrary: cs k)
  case Nil
  then show ?case by simp
next
  case (Cons v vs)
  from Cons.prems(1) obtain cycles where c: "get_odd_cycles g v = Inr cycles"
    and r: "add_odd_cycle_loop g vs (cs @ concat (map odd_cycle_constraints cycles))
              (k + 4 * length cycles) = Inr (cs', k')"
    by (auto split: sum.splits)
  have "list_all (\<lambda>c. sense_ok (Sense c)) (concat (map odd_cycle_constraints cycles))"
    by (auto simp: list_all_iff odd_cycle_constraints_def sense_ok_def Let_def)
  with Cons.prems(2) have "list_all (\<lambda>c. sense_ok (Sense c)) (cs @ concat (map odd_cycle_constraints cycles))"
    by simp
  from Cons.IH[OF r this] show ?case by auto
qed

lemma add_odd_cycle_constraints_senses:
  assumes "add_odd_cycle_constraints g n m k = Inr (m', k')"
    and "list_all (\<lambda>c. sense_ok (Sense c)) (constrs m)"
  shows "list_all (\<lambda>c. sense_ok (Sense c)) (constrs m') \<and> set (constrs m) \<subseteq> set (constrs m')"
proof -
  from assms(1) obtain cs where "add_odd_cycle_loop g [0 ..< (n + 1) div 2] (constrs m) k = Inr (cs, k')"
    and "constrs m' = cs"
    by (auto simp: add_odd_cycle_constraints_def split: sum.splits prod.splits)
  with add_odd_cycle_loop_senses[OF _ assms(2)] show ?thesis by blast
qed

lemma set_optimize_model_three:
  assumes "set_optimize_model THREE g k0 = Inr (m, ob, k)" and "v < numVertices g"
  shows "three_constraint (2 * v) \<in> set (constrs m)"
proof -
  from assms(1) have "set (three_constraints (2 * numVertices g)) \<subseteq> set (constrs m)"
    by (auto simp: set_optimize_model_def Let_def split: sum.splits prod.splits)
  moreover from assms(2) have "three_constraint (2 * v) \<in> set (three_constraints (2 * numVertices g))"
    by (simp add: three_constraints_def)
  ultimately show ?thesis by blast
qed

lemma set_anchor_constrs: "constrs (set_anchor has_precolored g m) = constrs m"
  by (simp add: set_anchor_def Let_def)

lemma three_constraint_binding:
  assumes "three_constraint i \<in> set (constrs m)"
    and "sol_Slack sol = slacks m (sol_X sol)"
    and "sol_X sol ! i = 1 / 2" "sol_X sol ! (i + 1) = 1 / 2"
  shows "\<exists>c < length (constrs m). constrs m ! c = three_constraint i \<and> sol_Slack sol ! c = 0"
proof -
  from assms(1) obtain c where c: "c < length (constrs m)" "constrs m ! c = three_constraint i"
    by (auto simp: in_set_conv_nth)
  have "eval_expr (sol_X sol) (lhs (three_constraint i)) = sol_X sol ! i + sol_X sol ! (i + 1)"
    by (simp add: eval_expr_def three_constraint_def)
  then have "eval_expr (sol_X sol) (lhs (three_constraint i)) = 1"
    by (simp only: assms(3,4))
  with c assms(2) have "sol_Slack sol ! c = 0"
    by (simp add: slacks_def three_constraint_def)
  with c show ?thesis by blast
qed

lemma built_model_all_invalid_failFlag:
  assumes "set_optimize_model color_num g k0 = Inr (m, ob, k)" and "v < numVertices g"
    and "constrs m' = constrs (set_anchor has_precolored g m)"
    and "sol_Slack sol = slacks m' (sol_X sol)"
    and "sol_X sol ! (2 * v) = 1 / 2" "sol_X sol ! (2 * v + 1) = 1 / 2"
    and "\<not> mValidColorBits (scan_pair color_num m' sol (2 * v)) 0 0"
      "\<not> mValidColorBits (scan_pair color_num m' sol (2 * v)) 0 1"
      "\<not> mValidColorBits (scan_pair color_num m' sol (2 * v)) 1 0"
      "\<not> mValidColorBits (scan_pair color_num m' sol (2 * v)) 1 1"
  shows "failFlag (scan_pair color_num m' sol (2 * v))"
proof -
  from assms(3) have e: "constrs m' = constrs m" by (simp add: set_anchor_constrs)
  from set_optimize_model_senses[OF assms(1)] e
  have s: "list_all (\<lambda>k. sense_ok (Sense k)) (constrs m')" by simp
  have t: "\<exists>c < length (constrs m'). constrs m' ! c = three_constraint (2 * v) \<and> sol_Slack sol ! c = 0"
    if "color_num = THREE"
  proof -
    from assms(1) that have "set_optimize_model THREE g k0 = Inr (m, ob, k)" by simp
    from set_optimize_model_three[OF this assms(2)] e
    have "three_constraint (2 * v) \<in> set (constrs m')" by simp
    from three_constraint_binding[OF this assms(4,5,6)] show ?thesis .
  qed
  from all_invalid_failFlag[OF assms(5,6) s t assms(7-10)] show ?thesis .
qed



lemmas scan_eval = scan_pair_def scan_init_def getCol_def getCoeff_def scan_constr_def
  same_direction_def check_all_candidates_def check_candidate_def candidates_def delta_of_def
  Let_def upt_rec

text \<open>
  The example with four vertices: the model is the one that \<^verbatim>\<open>set_optimize_model\<close> and
  \<^verbatim>\<open>set_anchor\<close> build, the point satisfies it, and the slacks are those of the point.
\<close>

lemma replicate_8: "replicate 8 x = [x, x, x, x, x, x, x, x]"
  by (simp add: numeral_eq_Suc)

lemma example_direction_model_built:
  "\<exists>m ob k. set_optimize_model FOUR example_direction_graph 0 = Inr (m, ob, k) \<and>
     set_anchor False example_direction_graph m = example_direction_model"
  by (simp add: set_optimize_model_def edge_weight_def source_def target_def
      set_anchor_def max_degree_vertex_def example_direction_model_def example_direction_graph_def
      degree_def adjacent_vertices_def Let_def upt_rec replicate_8)

lemma example_direction_feasible:
  "lp_feasible example_direction_model (sol_X example_direction_solution)"
  by (simp add: lp_feasible_def example_direction_model_def example_direction_solution_def
      cover_constraints_def satisfied_def eval_expr_def Let_def upt_rec nth_Cons')

lemma example_direction_slacks:
  "sol_Slack example_direction_solution =
     slacks example_direction_model (sol_X example_direction_solution)"
  by (simp add: slacks_def example_direction_model_def example_direction_solution_def
      cover_constraints_def eval_expr_def Let_def)

lemma example_direction_col:
  "getCol example_direction_model 2 = [0, 1, 2, 3, 12, 13, 14, 15]"
  by (simp add: example_direction_model_def cover_constraints_def getCol_def getCoeff_def Let_def upt_rec)

lemma example_direction_prefix:
  "scan_column example_direction_model example_direction_solution 2 [0, 1, 2, 3, 12] (scan_init FOUR) =
     \<lparr>prevConstrInfo = (\<lparr>coeff = 1, sense = CHR ''>''\<rparr>, \<lparr>coeff = 1, sense = CHR ''>''\<rparr>),
      curConstrInfo = (\<lparr>coeff = 1, sense = CHR ''>''\<rparr>, \<lparr>coeff = 1, sense = CHR ''>''\<rparr>),
      mValidColorBits = (\<lambda>b1 b2. True)(0 := (\<lambda>b2. True)(0 := False)),
      invalidCount = 1, failFlag = False\<rparr>"
  by (simp add: example_direction_model_def example_direction_solution_def cover_constraints_def
      scan_init_def getCoeff_def scan_constr_def same_direction_def check_all_candidates_def
      check_candidate_def candidates_def delta_of_def Let_def)

theorem C6_binding_constraint_check_witness:
  "sol_X example_direction_solution ! 2 = 1 / 2 \<and>
   sol_X example_direction_solution ! (2 + 1) = 1 / 2 \<and>
   sol_Slack example_direction_solution ! 1 \<noteq> 0 \<and>
   scan_constr example_direction_model example_direction_solution 2 1 (scan_init FOUR) =
     Continue (scan_init FOUR) \<and>
   sol_Slack example_direction_solution ! 0 = 0 \<and>
   \<not> mValidColorBits (step_state
       (scan_constr example_direction_model example_direction_solution 2 0 (scan_init FOUR))) 0 0 \<and>
   mValidColorBits (step_state
       (scan_constr example_direction_model example_direction_solution 2 0 (scan_init FOUR))) 1 0 \<and>
   sol_Slack example_direction_solution ! 13 = 0 \<and>
   (\<exists>st'. scan_constr example_direction_model example_direction_solution 2 13
            (scan_column example_direction_model example_direction_solution 2
               [0, 1, 2, 3, 12] (scan_init FOUR)) = Break st' \<and>
          failFlag st' \<and> mValidColorBits st' 1 0)"
proof -
  have x: "sol_X example_direction_solution ! 2 = 1 / 2"
    "sol_X example_direction_solution ! (2 + 1) = 1 / 2"
    by (simp_all add: example_direction_solution_def)
  have s: "sol_Slack example_direction_solution ! 1 \<noteq> 0"
    "sol_Slack example_direction_solution ! 0 = 0"
    "sol_Slack example_direction_solution ! 13 = 0"
    by (simp_all add: example_direction_solution_def)
  have b: "(0 :: nat) < 2" "(1 :: nat) < 2" by simp_all
  from C6_binding_constraint_check[OF x b(1) b(1), of 1 example_direction_model "scan_init FOUR"] s(1)
  have r1: "scan_constr example_direction_model example_direction_solution 2 1 (scan_init FOUR) =
      Continue (scan_init FOUR)"
    by blast
  from C6_binding_constraint_check[OF x b(1) b(1), of 0 example_direction_model "scan_init FOUR"]
  have r2: "\<not> mValidColorBits (step_state
       (scan_constr example_direction_model example_direction_solution 2 0 (scan_init FOUR))) 0 0"
    by (simp add: example_direction_model_def example_direction_solution_def cover_constraints_def
        scan_init_def getCoeff_def same_direction_def Let_def)
  from C6_binding_constraint_check[OF x b(2) b(1), of 0 example_direction_model "scan_init FOUR"]
  have r3: "mValidColorBits (step_state
       (scan_constr example_direction_model example_direction_solution 2 0 (scan_init FOUR))) 1 0"
    by (simp add: example_direction_model_def example_direction_solution_def cover_constraints_def
        scan_init_def getCoeff_def same_direction_def Let_def)
  have d: "\<not> (same_direction
        \<lparr>coeff = getCoeff (constrs example_direction_model ! 13) 2,
           sense = Sense (constrs example_direction_model ! 13)\<rparr>
        (fst (prevConstrInfo (scan_column example_direction_model example_direction_solution 2
               [0, 1, 2, 3, 12] (scan_init FOUR)))) \<and>
      same_direction
        \<lparr>coeff = getCoeff (constrs example_direction_model ! 13) (2 + 1),
           sense = Sense (constrs example_direction_model ! 13)\<rparr>
        (snd (prevConstrInfo (scan_column example_direction_model example_direction_solution 2
               [0, 1, 2, 3, 12] (scan_init FOUR)))))"
    by (subst example_direction_prefix)
       (simp add: example_direction_model_def cover_constraints_def getCoeff_def
          same_direction_def Let_def)
  have v: "mValidColorBits (scan_column example_direction_model example_direction_solution 2
               [0, 1, 2, 3, 12] (scan_init FOUR)) 1 0"
    by (subst example_direction_prefix) simp
  from C6_binding_constraint_check[OF x b(2) b(1), of 13 example_direction_model
      "scan_column example_direction_model example_direction_solution 2
         [0, 1, 2, 3, 12] (scan_init FOUR)"] s(3) d
  obtain st' where "scan_constr example_direction_model example_direction_solution 2 13
            (scan_column example_direction_model example_direction_solution 2
               [0, 1, 2, 3, 12] (scan_init FOUR)) = Break st'" "failFlag st'"
    "mValidColorBits st' = mValidColorBits (scan_column example_direction_model
       example_direction_solution 2 [0, 1, 2, 3, 12] (scan_init FOUR))"
    by blast
  with v have r4: "\<exists>st'. scan_constr example_direction_model example_direction_solution 2 13
            (scan_column example_direction_model example_direction_solution 2
               [0, 1, 2, 3, 12] (scan_init FOUR)) = Break st' \<and>
          failFlag st' \<and> mValidColorBits st' 1 0"
    by auto
  from x s r1 r2 r3 r4 show ?thesis by blast
qed

text \<open>
  Claim C6 as stated fails on a binding constraint that does not pass the direction test.
  In the example with four vertices the model is built by the program and the point
  satisfies it.  Constraint 13, \<open>2 - s1 + s2 - t1 + t2 \<ge> 1\<close> of edge \<open>(1, 2)\<close>, is in
  the column of the first variable of vertex 1 and binding, and candidate \<open>(1, 0)\<close> has
  \<open>delta = - 1 < 0\<close> under sense \<^verbatim>\<open>>\<close>.  The candidate is valid when the scan reaches
  the constraint, and is still valid after the constraint and at the end of the scan of the
  pair: the constraint pulls the variable against the binding constraint 0, and the scan
  leaves the loop with \<open>failFlag\<close> before it looks at the candidates.
\<close>

theorem C6_candidate_kept_counterexample:
  "(\<exists>m ob k. set_optimize_model FOUR example_direction_graph 0 = Inr (m, ob, k) \<and>
      set_anchor False example_direction_graph m = example_direction_model) \<and>
   lp_feasible example_direction_model (sol_X example_direction_solution) \<and>
   sol_Slack example_direction_solution =
     slacks example_direction_model (sol_X example_direction_solution) \<and>
   sol_X example_direction_solution ! 2 = 1 / 2 \<and> sol_X example_direction_solution ! 3 = 1 / 2 \<and>
   13 \<in> set (getCol example_direction_model 2) \<and>
   sol_Slack example_direction_solution ! 13 = 0 \<and>
   Sense (constrs example_direction_model ! 13) = CHR ''>'' \<and>
   delta_of (getCoeff (constrs example_direction_model ! 13) 2)
            (getCoeff (constrs example_direction_model ! 13) 3) (1 / 2) (1 / 2) 1 0 < 0 \<and>
   mValidColorBits (scan_column example_direction_model example_direction_solution 2
                      [0, 1, 2, 3, 12] (scan_init FOUR)) 1 0 \<and>
   mValidColorBits (step_state (scan_constr example_direction_model example_direction_solution 2 13
      (scan_column example_direction_model example_direction_solution 2
                      [0, 1, 2, 3, 12] (scan_init FOUR)))) 1 0 \<and>
   mValidColorBits (scan_pair FOUR example_direction_model example_direction_solution 2) 1 0 \<and>
   failFlag (scan_pair FOUR example_direction_model example_direction_solution 2)"
proof -
  have a: "sol_X example_direction_solution ! 2 = 1 / 2" "sol_X example_direction_solution ! 3 = 1 / 2"
    "sol_Slack example_direction_solution ! 13 = 0"
    by (simp_all add: example_direction_solution_def)
  have b: "13 \<in> set (getCol example_direction_model 2)"
    by (simp add: example_direction_col)
  have c: "Sense (constrs example_direction_model ! 13) = CHR ''>''"
    "delta_of (getCoeff (constrs example_direction_model ! 13) 2)
            (getCoeff (constrs example_direction_model ! 13) 3) (1 / 2) (1 / 2) 1 0 < 0"
    by (simp_all add: example_direction_model_def cover_constraints_def getCoeff_def delta_of_def Let_def)
  have d: "mValidColorBits (scan_column example_direction_model example_direction_solution 2
                      [0, 1, 2, 3, 12] (scan_init FOUR)) 1 0"
    by (subst example_direction_prefix) simp
  have e: "mValidColorBits (step_state (scan_constr example_direction_model example_direction_solution 2 13
      (scan_column example_direction_model example_direction_solution 2
                      [0, 1, 2, 3, 12] (scan_init FOUR)))) 1 0"
    by (subst example_direction_prefix)
       (simp add: example_direction_model_def example_direction_solution_def cover_constraints_def
          getCoeff_def scan_constr_def same_direction_def Let_def)
  have f: "mValidColorBits (scan_pair FOUR example_direction_model example_direction_solution 2) 1 0"
    "failFlag (scan_pair FOUR example_direction_model example_direction_solution 2)"
    by (simp_all add: example_direction_model_def example_direction_solution_def cover_constraints_def
        scan_eval)
  from example_direction_model_built example_direction_feasible example_direction_slacks a b c d e f
  show ?thesis by blast
qed

lemma example_three_slacks:
  "sol_Slack example_solution_a = slacks example_three_model (sol_X example_solution_a) \<and>
   lp_feasible example_three_model (sol_X example_solution_a)"
  by (simp add: slacks_def lp_feasible_def satisfied_def example_three_model_def
      example_solution_a_def three_constraint_def eval_expr_def upt_rec)


text \<open>
  The constraint \<open>b1 + b2 \<le> 1\<close> is needed when three colours are asked for.  The second
  example lacks it: all four candidates are invalid after the scan, candidate \<open>(1, 1)\<close>
  from the start and the other three through the two binding constraints, but
  \<open>invalidCount\<close> has only reached 3 and \<open>failFlag\<close> is not set.
\<close>

lemma scan_without_three_constraint:
  "\<not> mValidColorBits (scan_pair THREE example_model_b example_solution_b 0) 0 0 \<and>
   \<not> mValidColorBits (scan_pair THREE example_model_b example_solution_b 0) 0 1 \<and>
   \<not> mValidColorBits (scan_pair THREE example_model_b example_solution_b 0) 1 0 \<and>
   \<not> mValidColorBits (scan_pair THREE example_model_b example_solution_b 0) 1 1 \<and>
   \<not> failFlag (scan_pair THREE example_model_b example_solution_b 0) \<and>
   invalidCount (scan_pair THREE example_model_b example_solution_b 0) = 3"
  by (simp add: example_model_b_def example_solution_b_def scan_eval)

section \<open>Properties of the greedy refiner\<close>

text \<open>
  The colouring \<open>[0, 1, 1, 0, 3]\<close> of the example is what \<^verbatim>\<open>apply_solution\<close> writes for a
  point that satisfies the anchored four-colour model of the graph.
\<close>

lemma example_coloring_reachable:
  "\<exists>m ob k. set_optimize_model FOUR example_conflict_graph 0 = Inr (m, ob, k) \<and>
     lp_feasible (set_anchor False example_conflict_graph m)
       [0, 0, 1 / 4, 3 / 4, 1 / 4, 3 / 4, 1 / 4, 1 / 4, 1 / 2, 1 / 2, 0, 0, 0, 0, 0] \<and>
     apply_solution [0, 0, 1 / 4, 3 / 4, 1 / 4, 3 / 4, 1 / 4, 1 / 4, 1 / 2, 1 / 2, 0, 0, 0, 0, 0]
       [- 1, - 1, - 1, - 1, - 1] = [0, 1, 1, 0, 3]"
  by (simp add: example_conflict_graph_def set_optimize_model_def edge_weight_def source_def target_def
      cover_constraints_def lp_feasible_def set_anchor_def max_degree_vertex_def
      degree_def adjacent_vertices_def satisfied_def eval_expr_def apply_solution_def c_round_def Let_def
      upt_rec nth_Cons')

lemmas refine_eval = refine_color_def color_pairs_def mark_both_def adjacent_vertices_def
  source_def target_def conflict_num_def post_refinement_def Let_def

text \<open>
  Claim C4.  Four colours, nothing precoloured, the example graph with the colouring
  \<open>[0, 1, 1, 0, 3]\<close>: one edge, \<open>(1, 2)\<close>, joins two vertices of the same colour.
  \<^verbatim>\<open>refine_color\<close> on that edge gives vertex 1 the colour 0, which its neighbours 0 and 3
  hold, and vertex 2 the colour 1: two edges now join vertices of the same colour.
  \<^verbatim>\<open>post_refinement\<close> as a whole ends with that colouring.
\<close>

theorem C4_refine_color_adds_conflicts:
  "conflict_num example_conflict_graph [0, 1, 1, 0, 3] = 1 \<and>
   refine_color FOUR example_conflict_graph [0, 1, 1, 0, 3] (1, 2, 1) = Inr (True, [0, 0, 1, 0, 3]) \<and>
   conflict_num example_conflict_graph [0, 0, 1, 0, 3] = 2 \<and>
   post_refinement FOUR False example_conflict_graph [0, 1, 1, 0, 3] = Inr (1, [0, 0, 1, 0, 3])"
  by (simp add: example_conflict_graph_def refine_eval)

section \<open>Termination of the two refinement loops\<close>

lemma unat_succ_le: "unat (w + 1 :: 32 word) \<le> unat w + 1"
  by (simp add: unat_word_ariths)

lemma non_integer_fold_le:
  "unat (fst (fold (\<lambda>value (nonIntegerNum :: 32 word, halfIntegerNum :: 32 word).
             if value \<noteq> 0 \<and> value \<noteq> (1 :: real)
             then (nonIntegerNum + 1, if value = 1 / 2 then halfIntegerNum + 1 else halfIntegerNum)
             else (nonIntegerNum, halfIntegerNum)) xs acc)) \<le> unat (fst acc) + length xs"
proof (induction xs arbitrary: acc)
  case Nil
  show ?case by simp
next
  case (Cons x xs)
  obtain n h where acc: "acc = (n, h)" by (cases acc)
  show ?case
    using Cons.IH[of "(n + 1, if x = 1 / 2 then h + 1 else h)"] Cons.IH[of "(n, h)"] unat_succ_le[of n]
    by (auto simp: acc)
qed

lemma non_integer_num_vars_le: "unat (fst (non_integer_num_vars xs)) \<le> length xs"
  using non_integer_fold_le[of xs "(0, 0)"] by (simp add: non_integer_num_vars_def)

lemma vertex_non_integer_num_le:
  "unat (vertex_non_integer_num (non_integer_num numColorBits vals)) \<le> numColorBits"
  using non_integer_num_vars_le[of "take numColorBits vals"]
  by (simp add: non_integer_num_def Let_def)


lemma rounding_loop_iters:
  "snd (rounding_loop color_num engine numColorBits prevInfo curInfo m iters) \<le>
     iters + (if vertex_non_integer_num curInfo > 0 \<and>
                 vertex_non_integer_num curInfo < vertex_non_integer_num prevInfo
              then unat (vertex_non_integer_num curInfo) else 0)"
proof (induction color_num engine numColorBits prevInfo curInfo m iters rule: rounding_loop.induct)
  case (1 color_num engine numColorBits prevInfo curInfo m iters)
  let ?c = "vertex_non_integer_num curInfo"
  show ?case
  proof (cases "?c > 0 \<and> ?c < vertex_non_integer_num prevInfo")
    case False
    have "rounding_loop color_num engine numColorBits prevInfo curInfo m iters = (m, iters)"
      by (subst rounding_loop.simps) (simp only: False if_False)
    with False show ?thesis by (simp only: if_False) simp
  next
    case True
    let ?m' = "rounding_pairs color_num engine numColorBits 0 m"
    let ?n = "non_integer_num numColorBits (sol_X (engine ?m'))"
    from True have pos: "0 < unat ?c" by (simp add: word_less_nat_alt)
    have "(if vertex_non_integer_num ?n > 0 \<and> vertex_non_integer_num ?n < ?c
           then unat (vertex_non_integer_num ?n) else 0) < unat ?c"
      using pos by (simp add: word_less_nat_alt)
    moreover have "rounding_loop color_num engine numColorBits prevInfo curInfo m iters =
        rounding_loop color_num engine numColorBits curInfo ?n ?m' (Suc iters)"
      by (subst rounding_loop.simps) (simp add: True Let_def)
    moreover note "1.IH"[OF True refl]
    ultimately show ?thesis
      using True by simp
  qed
qed

lemma coloring_loop_iters:
  "coloring_loop g optimize numColorBits prevInfo curInfo st iters = Inr (st', k) \<Longrightarrow>
     k \<le> iters + (if vertex_non_integer_num curInfo > 0 \<and>
                 vertex_non_integer_num curInfo < vertex_non_integer_num prevInfo
              then unat (vertex_non_integer_num curInfo) else 0)"
proof (induction g optimize numColorBits prevInfo curInfo st iters rule: coloring_loop.induct)
  case (1 g optimize numColorBits prevInfo curInfo st iters)
  let ?c = "vertex_non_integer_num curInfo"
  show ?case
  proof (cases "?c > 0 \<and> ?c < vertex_non_integer_num prevInfo")
    case False
    have "coloring_loop g optimize numColorBits prevInfo curInfo st iters = Inr (st, iters)"
      by (subst coloring_loop.simps) (simp only: False if_False)
    with "1.prems" have "k = iters" by simp
    then show ?thesis by simp
  next
    case True
    let ?vals = "sol_X (cur_sol st)"
    let ?obj1 = "adjust_variable_pair_in_objective (take numColorBits ?vals) (objExpr st)"
    let ?obj2 = "adjust_conflict_edge_vertices_in_objective g ?vals ?obj1"
    from True have pos: "0 < unat ?c" by (simp add: word_less_nat_alt)
    have unf: "coloring_loop g optimize numColorBits prevInfo curInfo st iters =
        (case add_odd_cycle_constraints g numColorBits (optModel st) (constrsNum st) of
              Inl e \<Rightarrow> Inl e
            | Inr mk \<Rightarrow>
                (case optimize (fst mk) ?obj2 of
                   None \<Rightarrow> Inl AssertionFailed
                 | Some sol \<Rightarrow>
                     coloring_loop g optimize numColorBits curInfo
                       (non_integer_num numColorBits (sol_X sol))
                       \<lparr>optModel = fst mk, objExpr = ?obj2, constrsNum = snd mk, cur_sol = sol\<rparr>
                       (Suc iters)))"
      by (subst coloring_loop.simps) (simp add: True Let_def)
    from "1.prems" obtain mk sol where
      mk: "add_odd_cycle_constraints g numColorBits (optModel st) (constrsNum st) = Inr mk"
      and sol: "optimize (fst mk) ?obj2 = Some sol"
      and rec: "coloring_loop g optimize numColorBits curInfo
                  (non_integer_num numColorBits (sol_X sol))
                  \<lparr>optModel = fst mk, objExpr = ?obj2, constrsNum = snd mk, cur_sol = sol\<rparr>
                  (Suc iters) = Inr (st', k)"
      unfolding unf by (auto split: sum.splits option.splits)
    let ?n = "non_integer_num numColorBits (sol_X sol)"
    have "(if vertex_non_integer_num ?n > 0 \<and> vertex_non_integer_num ?n < ?c
           then unat (vertex_non_integer_num ?n) else 0) < unat ?c"
      using pos by (simp add: word_less_nat_alt)
    with "1.IH"[OF True refl refl refl mk sol rec] show ?thesis
      using True by simp
  qed
qed

text \<open>
  Claim C8.  Both refinement loops are total functions: each call decreases the previous
  census count, which the loop condition keeps above the current one.  With \<open>2 * n\<close>
  colour bits, the refiner of \<^verbatim>\<open>coloring\<close>, whenever it ends without a failed assertion,
  has run at most \<open>2 * n\<close> iterations, and so has the loop of
  \<^verbatim>\<open>rounding_with_binding_analysis\<close>, whatever the LP engine answers.
\<close>

theorem C8_refinement_loops_bounded:
  "(\<forall>st' k. coloring_loop g optimize (2 * n) NonIntegerInfo_init (non_integer_num (2 * n) vals) st 0 = Inr (st', k)
       \<longrightarrow> k \<le> 2 * n) \<and>
   snd (rounding_with_binding_analysis color_num engine (2 * n) m) \<le> 2 * n"
proof (intro conjI allI impI)
  fix st' k
  assume "coloring_loop g optimize (2 * n) NonIntegerInfo_init (non_integer_num (2 * n) vals) st 0 = Inr (st', k)"
  from coloring_loop_iters[OF this] vertex_non_integer_num_le[of "2 * n" vals]
  show "k \<le> 2 * n" by (simp split: if_splits)
next
  from rounding_loop_iters[of color_num engine "2 * n" NonIntegerInfo_init
      "non_integer_num (2 * n) (sol_X (engine m))" m 0]
    vertex_non_integer_num_le[of "2 * n" "sol_X (engine m)"]
  show "snd (rounding_with_binding_analysis color_num engine (2 * n) m) \<le> 2 * n"
    by (simp add: rounding_with_binding_analysis_def split: if_splits)
qed



lemma example_graph_wf: "wf_graph example_graph"
  by (simp add: example_graph_def wf_graph_def source_def target_def)
lemma example_graph_no_self_loops: "no_self_loops example_graph"
  by (simp add: example_graph_def no_self_loops_def source_def target_def)

lemma census_word_compare: "(0 :: 32 word) < 2" "(2 :: 32 word) < - 1" "\<not> (0 :: 32 word) < 0"
  by simp_all

lemma example_census_first: "non_integer_num 4 [0, 0, 1 / 2, 1 / 2, 0] =
   \<lparr>vertex_non_integer_num = 2, edge_non_integer_num = 0, vertex_half_integer_num = 2, edge_half_integer_num = 0\<rparr>"
  by (simp add: non_integer_num_def non_integer_num_vars_def Let_def)

lemma example_census_second: "non_integer_num 4 [0, 0, 1, 0, 0] =
   \<lparr>vertex_non_integer_num = 0, edge_non_integer_num = 0, vertex_half_integer_num = 0, edge_half_integer_num = 0\<rparr>"
  by (simp add: non_integer_num_def non_integer_num_vars_def Let_def)

lemma example_objective:
  "adjust_conflict_edge_vertices_in_objective example_graph [0, 0, 1 / 2, 1 / 2, 0]
     (adjust_variable_pair_in_objective [0, 0, 1 / 2, 1 / 2] \<lparr>lconst = 0, lterms = []\<rparr>) =
   \<lparr>lconst = 0, lterms = [(1, 0), (- 1, 2), (1, Suc 0), (- 1, 3)]\<rparr>"
  by (simp add: example_graph_def adjust_variable_pair_in_objective_def adjust_variable_pair_loop.simps
        is_integer_def adjust_conflict_edge_vertices_in_objective_def adjust_edge_bit_def
        source_def target_def Let_def)

lemma example_loop_run:
  "coloring_loop example_graph example_engine 4 NonIntegerInfo_init
     (non_integer_num 4 [0, 0, 1 / 2, 1 / 2, 0]) example_state 0 =
   Inr (\<lparr>optModel = \<lparr>var_lb = [], var_ub = [], constrs = []\<rparr>,
         objExpr = \<lparr>lconst = 0, lterms = [(1, 0), (- 1, 2), (1, 1), (- 1, 3)]\<rparr>,
         constrsNum = 0, cur_sol = \<lparr>sol_X = [0, 0, 1, 0, 0], sol_Slack = []\<rparr>\<rparr>, 1)"
proof -
  have a: "add_odd_cycle_constraints example_graph 4
      \<lparr>var_lb = [], var_ub = [], constrs = []\<rparr> 0 = Inr (\<lparr>var_lb = [], var_ub = [], constrs = []\<rparr>, 0)"
    using add_odd_cycle_loop_unchanged[OF example_graph_wf example_graph_no_self_loops, of "[0, 1]" "[]" 0]
    by (simp add: add_odd_cycle_constraints_def upt_rec example_graph_def)
  have s2: "coloring_loop example_graph example_engine 4
      \<lparr>vertex_non_integer_num = 2, edge_non_integer_num = 0, vertex_half_integer_num = 2, edge_half_integer_num = 0\<rparr>
      \<lparr>vertex_non_integer_num = 0, edge_non_integer_num = 0, vertex_half_integer_num = 0, edge_half_integer_num = 0\<rparr>
      st (Suc 0) = Inr (st, 1)" for st
    by (subst coloring_loop.simps) simp
  show ?thesis
    apply (subst coloring_loop.simps)
    apply (simp add: example_census_first example_census_second NonIntegerInfo_init_def census_word_compare example_state_def example_objective a
        example_engine_def s2 Let_def)
    done
qed


theorem C8_refinement_loops_bounded_witness:
  "coloring_loop example_graph example_engine (2 * 2) NonIntegerInfo_init
     (non_integer_num (2 * 2) [0, 0, 1 / 2, 1 / 2, 0]) example_state 0 =
   Inr (\<lparr>optModel = \<lparr>var_lb = [], var_ub = [], constrs = []\<rparr>,
         objExpr = \<lparr>lconst = 0, lterms = [(1, 0), (- 1, 2), (1, 1), (- 1, 3)]\<rparr>,
         constrsNum = 0, cur_sol = \<lparr>sol_X = [0, 0, 1, 0, 0], sol_Slack = []\<rparr>\<rparr>, 1) \<and>
   (1 :: nat) \<le> 2 * 2"
proof -
  have e: "coloring_loop example_graph example_engine (2 * 2) NonIntegerInfo_init
     (non_integer_num (2 * 2) [0, 0, 1 / 2, 1 / 2, 0]) example_state 0 =
   Inr (\<lparr>optModel = \<lparr>var_lb = [], var_ub = [], constrs = []\<rparr>,
         objExpr = \<lparr>lconst = 0, lterms = [(1, 0), (- 1, 2), (1, 1), (- 1, 3)]\<rparr>,
         constrsNum = 0, cur_sol = \<lparr>sol_X = [0, 0, 1, 0, 0], sol_Slack = []\<rparr>\<rparr>, 1)"
    using example_loop_run by simp
  from C8_refinement_loops_bounded[of example_graph example_engine 2 "[0, 0, 1 / 2, 1 / 2, 0]"
      example_state FOUR "\<lambda>m. example_solution_b" example_model_b] e
  show ?thesis by blast
qed

section \<open>Properties of \<^verbatim>\<open>apply_solution\<close>\<close>

text \<open>
  Within the bounds \<open>[0, 1]\<close> of the variables every rounded bit is 0 or 1, so every colour
  that \<^verbatim>\<open>apply_solution\<close> writes is one of 0, 1, 2, 3, whatever the colour mode.
\<close>

lemma c_round_unit: "0 \<le> x \<Longrightarrow> x \<le> 1 \<Longrightarrow> c_round x = 0 \<or> c_round x = 1"
  unfolding c_round_def by (simp add: floor_eq_iff) linarith

lemma apply_solution_range:
  assumes "\<forall>j < 2 * length m_vColor. 0 \<le> X ! j \<and> X ! j \<le> 1"
  shows "\<forall>c \<in> set (apply_solution X m_vColor). c \<in> {0, 1, 2, 3}"
proof
  fix c assume "c \<in> set (apply_solution X m_vColor)"
  then obtain i where i: "i < length m_vColor"
    and c: "c = 2 * c_round (X ! (2 * i)) + c_round (X ! (2 * i + 1))"
    by (auto simp: apply_solution_def Let_def)
  from i assms have "0 \<le> X ! (2 * i) \<and> X ! (2 * i) \<le> 1" "0 \<le> X ! (2 * i + 1) \<and> X ! (2 * i + 1) \<le> 1"
    by simp_all
  then have "c_round (X ! (2 * i)) = 0 \<or> c_round (X ! (2 * i)) = 1"
    "c_round (X ! (2 * i + 1)) = 0 \<or> c_round (X ! (2 * i + 1)) = 1"
    using c_round_unit by blast+
  with c show "c \<in> {0, 1, 2, 3}" by auto
qed


lemma replicate_4: "replicate 4 x = [x, x, x, x]"
  by (simp add: numeral_eq_Suc)

lemma example_edge_model_built:
  "\<exists>m ob k. set_optimize_model THREE \<lparr>numVertices = 2, edges = [(0, 1, 1)]\<rparr> 0 = Inr (m, ob, k) \<and>
     set_anchor False \<lparr>numVertices = 2, edges = [(0, 1, 1)]\<rparr> m = example_edge_model"
  by (simp add: set_optimize_model_def edge_weight_def source_def target_def
      three_constraints_def set_anchor_def max_degree_vertex_def example_edge_model_def
      degree_def adjacent_vertices_def Let_def upt_rec replicate_4)

lemma example_edge_slacks:
  "slacks example_edge_model [0, 0, 1 / 2, 1 / 2, 0] = [0, - 1, - 1, - 2, 1, 0]"
  by (simp add: slacks_def example_edge_model_def cover_constraints_def three_constraint_def
      eval_expr_def Let_def)

lemma example_edge_scan:
  "failFlag (scan_pair THREE example_edge_model
      \<lparr>sol_X = [0, 0, 1 / 2, 1 / 2, 0], sol_Slack = [0, - 1, - 1, - 2, 1, 0]\<rparr> 2)"
  by (simp add: example_edge_model_def cover_constraints_def three_constraint_def scan_eval)

lemma example_edge_pairs:
  "rounding_pairs THREE (\<lambda>m. \<lparr>sol_X = [0, 0, 1 / 2, 1 / 2, 0], sol_Slack = [0, - 1, - 1, - 2, 1, 0]\<rparr>) 4 0
     example_edge_model = example_edge_model"
  apply (subst rounding_pairs.simps, simp)
  apply (subst rounding_pairs.simps, simp add: Let_def example_edge_scan[unfolded numeral_2_eq_2] apply_rounding_def)
  apply (subst rounding_pairs.simps, simp)
  done

lemma example_edge_rounding:
  "rounding_with_binding_analysis THREE
     (\<lambda>m. \<lparr>sol_X = [0, 0, 1 / 2, 1 / 2, 0], sol_Slack = [0, - 1, - 1, - 2, 1, 0]\<rparr>) 4
     example_edge_model = (example_edge_model, 1)"
  apply (simp add: rounding_with_binding_analysis_def example_census_first NonIntegerInfo_init_def)
  apply (subst rounding_loop.simps)
  apply (simp add: census_word_compare example_edge_pairs example_census_first Let_def)
  apply (subst rounding_loop.simps)
  apply simp
  done

text \<open>
  Claim C1.  The graph is one edge between vertices 0 and 1, three colours are asked for and
  nothing is precoloured.  The point with vertex 0 at \<open>(0, 0)\<close> and vertex 1 at
  \<open>(1/2, 1/2)\<close> satisfies the model built by \<^verbatim>\<open>set_optimize_model\<close> and anchored by
  \<^verbatim>\<open>set_anchor\<close>, the constraint \<open>b1 + b2 \<le> 1\<close> of vertex 1 included, and
  \<^verbatim>\<open>apply_solution\<close> gives vertex 1 the colour 3, which the claim excludes when three
  colours are asked for.
\<close>

theorem C1_three_colors_gives_color_3:
  "\<exists>m ob k. set_optimize_model THREE \<lparr>numVertices = 2, edges = [(0, 1, 1)]\<rparr> 0 = Inr (m, ob, k) \<and>
     lp_feasible (set_anchor False \<lparr>numVertices = 2, edges = [(0, 1, 1)]\<rparr> m) [0, 0, 1 / 2, 1 / 2, 0] \<and>
     apply_solution [0, 0, 1 / 2, 1 / 2, 0] [- 1, - 1] = [0, 3]"
  by (simp add: set_optimize_model_def edge_weight_def source_def target_def cover_constraints_def
      three_constraints_def three_constraint_def lp_feasible_def set_anchor_def max_degree_vertex_def
      degree_def adjacent_vertices_def satisfied_def eval_expr_def apply_solution_def c_round_def Let_def
      upt_rec nth_Cons')

section \<open>Properties of the engine adapters\<close>

text \<open>
  Claim C10.  Constructed with no argument, \<^verbatim>\<open>CapacityScaling\<close> has the scaling factor 4,
  \<^verbatim>\<open>CostScaling\<close> the method \<^verbatim>\<open>PARTIAL_AUGMENT\<close> and the factor 16,
  \<^verbatim>\<open>NetworkSimplex\<close> the pivot rule \<^verbatim>\<open>BLOCK_SEARCH\<close> and \<^verbatim>\<open>CycleCanceling\<close> the
  method \<^verbatim>\<open>CANCEL_AND_TIGHTEN\<close>.
\<close>

theorem C10_adapter_defaults:
  "CapacityScaling.m_factor (new_CapacityScaling None) = 4 \<and>
   CostScaling.m_method (new_CostScaling None None) = PARTIAL_AUGMENT \<and>
   CostScaling.m_factor (new_CostScaling None None) = 16 \<and>
   m_pivotRule (new_NetworkSimplex None) = BLOCK_SEARCH \<and>
   CycleCanceling.m_method (new_CycleCanceling None) = CANCEL_AND_TIGHTEN"
  by (simp add: new_CapacityScaling_def new_CostScaling_def new_NetworkSimplex_def
      new_CycleCanceling_def)

end
